theory Spec2Isabelle
  imports Main "HOL-Library.AList"
begin

section \<open>JavaScript values\<close>

text \<open>
  The values the generator builds and inspects: JSON-like trees, with \<open>undefined\<close>.
  An object is an association list in insertion order.
\<close>

datatype jsval =
    JUndefined
  | JNull
  | JBool bool
  | JNum int
  | JStr string
  | JArr "jsval list"
  | JObj "(string \<times> jsval) list"

text \<open>JavaScript truthiness, as the conditional operator applies it.\<close>

fun truthy :: "jsval \<Rightarrow> bool" where
  "truthy JUndefined = False"
| "truthy JNull = False"
| "truthy (JBool b) = b"
| "truthy (JNum n) = (n \<noteq> 0)"
| "truthy (JStr s) = (s \<noteq> [])"
| "truthy (JArr xs) = True"
| "truthy (JObj kvs) = True"

text \<open>The operator \<open>a ?? b\<close>: \<open>b\<close> when \<open>a\<close> is null or undefined, else \<open>a\<close>.\<close>

definition nullish :: "jsval \<Rightarrow> jsval \<Rightarrow> jsval" where
  "nullish a b = (if a = JUndefined \<or> a = JNull then b else a)"

datatype error = InvariantError string | PluginError string

definition bindE :: "error + 'a \<Rightarrow> ('a \<Rightarrow> error + 'b) \<Rightarrow> error + 'b" where
  "bindE m f = (case m of Inl e \<Rightarrow> Inl e | Inr x \<Rightarrow> f x)"

section \<open>The model graph\<close>

text \<open>
  A resolved reference of a field type: the kind and the name of the declaration it points to
  (\<open>field.type.reference?.ref\<close>, tested with \<open>isEnum\<close>, \<open>isDataModel\<close>, \<open>isTypeDef\<close>).
\<close>

datatype decl_ref = EnumRef string | DataModelRef string | TypeDefRef string

fun ref_name :: "decl_ref \<Rightarrow> string" where
  "ref_name (EnumRef n) = n"
| "ref_name (DataModelRef n) = n"
| "ref_name (TypeDefRef n) = n"

record FieldType =
  ft_type :: "string option"
  ft_reference :: "decl_ref option"
  ft_array :: bool
  ft_optional :: bool

text \<open>
  Modelled from the spec: the SDK predicates \<open>isIdField\<close> and \<open>isForeignKeyField\<close> are not
  part of the sources at hand; a field carries them as its identifier flag and its foreign-key
  flag. \<open>hasAttribute\<close> looks an attribute name up in the field's attribute list.
\<close>

record DataModelField =
  f_name :: string
  f_type :: FieldType
  f_attributes :: "string list"
  f_isId :: bool
  f_isForeignKey :: bool

definition isIdField :: "DataModelField \<Rightarrow> bool" where
  "isIdField f = f_isId f"

definition isForeignKeyField :: "DataModelField \<Rightarrow> bool" where
  "isForeignKeyField f = f_isForeignKey f"

definition hasAttribute :: "DataModelField \<Rightarrow> string \<Rightarrow> bool" where
  "hasAttribute f a = (a \<in> set (f_attributes f))"

fun isDataModelRef :: "decl_ref option \<Rightarrow> bool" where
  "isDataModelRef (Some (DataModelRef n)) = True"
| "isDataModelRef r = False"

fun isEnumRef :: "decl_ref option \<Rightarrow> bool" where
  "isEnumRef (Some (EnumRef n)) = True"
| "isEnumRef r = False"

fun isTypeDefRef :: "decl_ref option \<Rightarrow> bool" where
  "isTypeDefRef (Some (TypeDefRef n)) = True"
| "isTypeDefRef r = False"

text \<open>
  Modelled from the spec: \<open>isRelationshipField\<close> of the SDK; a relationship field is a field
  whose type is another entity.
\<close>

definition isRelationshipField :: "DataModelField \<Rightarrow> bool" where
  "isRelationshipField f = isDataModelRef (ft_reference (f_type f))"

record DataModel =
  dm_name :: string
  dm_fields :: "DataModelField list"

record EnumDecl =
  en_name :: string
  en_fields :: "string list"

record TypeDefField =
  tf_name :: string
  tf_type :: FieldType

record TypeDef =
  td_name :: string
  td_fields :: "TypeDefField list"

datatype Declaration =
    DataModelD DataModel
  | EnumD EnumDecl
  | TypeDefD TypeDef
  | OtherD string

text \<open>
  The result of \<open>analyzePolicies\<close>, an external service: for each operation a value that is
  compared with \<open>=== true\<close>.
\<close>

record Policies =
  pol_read :: jsval
  pol_create :: jsval
  pol_update :: jsval
  pol_delete :: jsval

text \<open>
  The resource metadata of a model is the object literal of its \<open>@@openapi.meta\<close>
  attribute, read without validation: the parameter is declared
  \<open>{ security?: object }\<close>, but \<open>security\<close> holds whatever value the literal gives
  it, a primitive included.
\<close>

record ResourceMeta =
  tagDescription :: "string option"
  security :: "jsval option"

text \<open>
  The generator instance: the loaded model, the DMMF model names, the options, and the
  external services \<open>analyzePolicies\<close> and \<open>getModelResourceMeta\<close> (keyed by the name of
  the data model they are applied to) and \<open>includedModels\<close> of the base class.
\<close>

record Generator =
  declarations :: "Declaration list"
  dmmf_models :: "string list"
  includedModels :: "DataModel list"
  dataModels :: "DataModel list"
  modelNameMapping :: "(string \<times> string) list"
  opt_prefix :: string
  newNullable :: bool
  analyzePolicies :: "string \<Rightarrow> Policies"
  getModelResourceMeta :: "string \<Rightarrow> ResourceMeta option"

section \<open>Helpers\<close>

text \<open>
  Modelled from the spec: \<open>lowerCaseFirst\<close> of the runtime helpers lower-cases the first
  character of a name (ASCII letters here).
\<close>

definition lower_char :: "char \<Rightarrow> char" where
  "lower_char c = (let n = (of_char c :: nat) in if 65 \<le> n \<and> n \<le> 90 then char_of (n + 32) else c)"

fun lowerCaseFirst :: "string \<Rightarrow> string" where
  "lowerCaseFirst [] = []"
| "lowerCaseFirst (c # cs) = lower_char c # cs"

definition dquote :: "string \<Rightarrow> string" where
  "dquote s = CHR 0x22 # s @ [CHR 0x22]"

definition ref :: "string \<Rightarrow> jsval" where
  "ref t = JObj [(''$ref'', JStr (''#/components/schemas/'' @ t))]"

definition parameter_ref :: "string \<Rightarrow> string" where
  "parameter_ref t = ''#/components/parameters/'' @ t"

text \<open>
  Modelled from the spec: the schema combinators of the base class (\<open>wrapArray\<close>, \<open>array\<close>,
  \<open>oneOf\<close>, \<open>allOf\<close>, \<open>wrapNullable\<close>) are not part of the sources at hand. An array
  wraps as \<open>{type: array, items: base}\<close>; a nullable schema is \<open>oneOf[base, null]\<close> for the
  3.1-style null handling and carries \<open>nullable: true\<close> for older versions.
\<close>

definition array_schema :: "jsval \<Rightarrow> jsval" where
  "array_schema s = JObj [(''type'', JStr ''array''), (''items'', s)]"

definition wrapArray :: "jsval \<Rightarrow> bool \<Rightarrow> jsval" where
  "wrapArray s isArray = (if isArray then array_schema s else s)"

definition oneOf :: "jsval list \<Rightarrow> jsval" where
  "oneOf ss = JObj [(''oneOf'', JArr ss)]"

definition allOf :: "jsval list \<Rightarrow> jsval" where
  "allOf ss = JObj [(''allOf'', JArr ss)]"

fun has_key :: "string \<Rightarrow> jsval \<Rightarrow> bool" where
  "has_key k (JObj kvs) = (k \<in> fst ` set kvs)"
| "has_key k v = False"

fun spread :: "jsval \<Rightarrow> (string \<times> jsval) list" where
  "spread (JObj kvs) = kvs"
| "spread v = []"

definition wrapNullable :: "bool \<Rightarrow> jsval \<Rightarrow> bool \<Rightarrow> jsval" where
  "wrapNullable v31 s isNullable =
     (if \<not> isNullable then s
      else if v31 then oneOf [s, JObj [(''type'', JStr ''null'')]]
      else if has_key ''$ref'' s then JObj [(''allOf'', JArr [s]), (''nullable'', JBool True)]
      else JObj (AList.update ''nullable'' (JBool True) (spread s)))"

section \<open>Field/type mapper\<close>

definition invariant :: "bool \<Rightarrow> string \<Rightarrow> error + unit" where
  "invariant c msg = (if c then Inr () else Inl (InvariantError msg))"

definition fieldTypeToOpenAPISchema :: "FieldType \<Rightarrow> error + jsval" where
  "fieldTypeToOpenAPISchema t =
     (if ft_type t = Some ''String'' then Inr (JObj [(''type'', JStr ''string'')])
      else if ft_type t = Some ''Int'' \<or> ft_type t = Some ''BigInt''
        then Inr (JObj [(''type'', JStr ''integer'')])
      else if ft_type t = Some ''Float'' then Inr (JObj [(''type'', JStr ''number'')])
      else if ft_type t = Some ''Decimal''
        then Inr (oneOf [JObj [(''type'', JStr ''number'')], JObj [(''type'', JStr ''string'')]])
      else if ft_type t = Some ''Boolean'' then Inr (JObj [(''type'', JStr ''boolean'')])
      else if ft_type t = Some ''DateTime''
        then Inr (JObj [(''type'', JStr ''string''), (''format'', JStr ''date-time'')])
      else if ft_type t = Some ''Bytes''
        then Inr (JObj [(''type'', JStr ''string''), (''format'', JStr ''byte''),
                        (''description'', JStr ''Base64 encoded byte array'')])
      else if ft_type t = Some ''Json'' then Inr (JObj [])
      else (case ft_reference t of
              None \<Rightarrow>
                Inl (InvariantError
                       (''Invariant failed: Type ''
                        @ (case ft_type t of None \<Rightarrow> ''undefined'' | Some n \<Rightarrow> n)
                        @ '' is not a model reference''))
            | Some d \<Rightarrow> Inr (ref (ref_name d))))"

section \<open>Filter parameter builder\<close>

datatype Parameter =
    ParameterRef string
  | ParameterObject (p_name: string) (p_required: bool) (p_description: string)
      (p_in: string) (p_style: string) (p_explode: bool) (p_schema: jsval)

definition parameter :: "string \<Rightarrow> Parameter" where
  "parameter t = ParameterRef (parameter_ref t)"

definition makeFilterParameter ::
  "DataModelField \<Rightarrow> string \<Rightarrow> string \<Rightarrow> bool \<Rightarrow> jsval option \<Rightarrow> error + Parameter" where
  "makeFilterParameter field name description array schemaOverride =
     bindE
       (case schemaOverride of
          Some s \<Rightarrow> Inr s
        | None \<Rightarrow>
           (let fieldDecl = ft_reference (f_type field) in
            if isEnumRef fieldDecl then Inr (ref (ref_name (the fieldDecl)))
            else if isDataModelRef fieldDecl then Inr (JObj [(''type'', JStr ''string'')])
            else if isTypeDefRef fieldDecl \<or> ft_type (f_type field) = Some ''Json''
              then Inr (JObj [(''type'', JStr ''string''), (''format'', JStr ''json'')])
            else bindE (invariant (ft_type (f_type field) \<noteq> None \<and> ft_type (f_type field) \<noteq> Some [])
                          ''Invariant failed'')
                   (\<lambda>_. fieldTypeToOpenAPISchema (f_type field))))
       (\<lambda>schema.
          Inr (ParameterObject
                 (if name = ''id'' then ''filter[id]'' else ''filter['' @ f_name field @ name @ '']'')
                 False
                 (if name = ''id'' then description
                  else description @ '' for '' @ dquote (f_name field))
                 ''query'' ''form'' False
                 (wrapArray schema array)))"

text \<open>The body of the loop over the fields: the parameters one field pushes.\<close>

definition comparison_types :: "string list" where
  "comparison_types = [''Int'', ''BigInt'', ''Float'', ''Decimal'', ''DateTime'']"

fun sequenceE :: "(error + 'a) list \<Rightarrow> error + 'a list" where
  "sequenceE [] = Inr []"
| "sequenceE (m # ms) = bindE m (\<lambda>x. bindE (sequenceE ms) (\<lambda>xs. Inr (x # xs)))"

definition fieldFilterParameters :: "bool \<Rightarrow> DataModelField \<Rightarrow> error + Parameter list" where
  "fieldFilterParameters hasMultipleIds field =
     (if isForeignKeyField field then Inr []
      else if isIdField field \<and> \<not> hasMultipleIds
        then sequenceE [makeFilterParameter field ''id'' ''Id filter'' False None]
      else if isRelationshipField field
        then sequenceE
          [makeFilterParameter field [] ''Equality filter'' (ft_array (f_type field)) None]
      else if ft_array (f_type field)
        then sequenceE
          [makeFilterParameter field [] ''Equality filter'' (ft_array (f_type field)) None,
           makeFilterParameter field ''$has'' ''Collection contains filter'' False None,
           makeFilterParameter field ''$hasEvery'' ''Collection contains-all filter'' True None,
           makeFilterParameter field ''$hasSome'' ''Collection contains-any filter'' True None,
           makeFilterParameter field ''$isEmpty'' ''Collection is empty filter'' False
             (Some (JObj [(''type'', JStr ''boolean'')]))]
      else sequenceE
          ([makeFilterParameter field [] ''Equality filter'' (ft_array (f_type field)) None]
           @ (if (case ft_type (f_type field) of None \<Rightarrow> False
                   | Some t \<Rightarrow> t \<noteq> [] \<and> t \<in> set comparison_types)
              then [makeFilterParameter field ''$lt'' ''Less-than filter'' False None,
                    makeFilterParameter field ''$lte'' ''Less-than or equal filter'' False None,
                    makeFilterParameter field ''$gt'' ''Greater-than filter'' False None,
                    makeFilterParameter field ''$gte'' ''Greater-than or equal filter'' False None]
              else [])
           @ (if ft_type (f_type field) = Some ''String''
              then [makeFilterParameter field ''$contains'' ''String contains filter'' False None,
                    makeFilterParameter field ''$icontains''
                      ''String case-insensitive contains filter'' False None,
                    makeFilterParameter field ''$search'' ''String full-text search filter''
                      False None,
                    makeFilterParameter field ''$startsWith'' ''String startsWith filter''
                      False None,
                    makeFilterParameter field ''$endsWith'' ''String endsWith filter'' False None]
              else [])))"

fun filterLoop :: "bool \<Rightarrow> DataModelField list \<Rightarrow> Parameter list \<Rightarrow> error + Parameter list" where
  "filterLoop h [] result = Inr result"
| "filterLoop h (field # rest) result =
     bindE (fieldFilterParameters h field) (\<lambda>ps. filterLoop h rest (result @ ps))"

definition generateFilterParameters :: "DataModel \<Rightarrow> error + Parameter list" where
  "generateFilterParameters model =
     (let hasMultipleIds = (length (filter isIdField (dm_fields model)) > 1)
      in filterLoop hasMultipleIds (dm_fields model) [])"

section \<open>Path builder\<close>

record Response =
  r_description :: string
  r_schema :: "jsval option"

record Operation =
  operationId :: string
  description :: string
  tags :: "string list"
  parameters :: "Parameter list"
  requestBody :: "jsval option"
  responses :: "(string \<times> Response) list"
  op_security :: "jsval list option"

record PathItem =
  pi_get :: "Operation option"
  pi_post :: "Operation option"
  pi_put :: "Operation option"
  pi_patch :: "Operation option"
  pi_delete :: "Operation option"

definition empty_item :: PathItem where
  "empty_item = \<lparr>pi_get = None, pi_post = None, pi_put = None, pi_patch = None, pi_delete = None\<rparr>"

definition forbidden :: Response where
  "forbidden = \<lparr>r_description = ''Request is forbidden'', r_schema = Some (ref ''_errorResponse'')\<rparr>"

definition validationError :: Response where
  "validationError = \<lparr>r_description = ''Request is unprocessable due to validation errors'',
     r_schema = Some (ref ''_errorResponse'')\<rparr>"

definition notFound :: Response where
  "notFound = \<lparr>r_description = ''Resource is not found'', r_schema = Some (ref ''_errorResponse'')\<rparr>"

definition success :: "string option \<Rightarrow> Response" where
  "success responseComponent =
     \<lparr>r_description = ''Successful operation'',
      r_schema = (case responseComponent of
                    None \<Rightarrow> None
                  | Some c \<Rightarrow> if c = [] then None else Some (ref c))\<rparr>"

text \<open>
  The expression \<open>resourceMeta?.security ?? policy === true ? [] : undefined\<close>. The
  comparison binds tighter than \<open>??\<close>, which binds tighter than the conditional: the
  condition is \<open>(resourceMeta?.security ?? (policy === true))\<close>.
\<close>

definition meta_security :: "ResourceMeta option \<Rightarrow> jsval" where
  "meta_security resourceMeta =
     (case resourceMeta of
        None \<Rightarrow> JUndefined
      | Some m \<Rightarrow> (case security m of None \<Rightarrow> JUndefined | Some v \<Rightarrow> v))"

definition operation_security :: "ResourceMeta option \<Rightarrow> jsval \<Rightarrow> jsval list option" where
  "operation_security resourceMeta policy =
     (if truthy (nullish (meta_security resourceMeta) (JBool (policy = JBool True)))
      then Some [] else None)"

definition mapModelName :: "Generator \<Rightarrow> string \<Rightarrow> string" where
  "mapModelName g modelName =
     (case map_of (modelNameMapping g) modelName of None \<Rightarrow> modelName | Some n \<Rightarrow> n)"

definition makeResourceList ::
  "DataModel \<Rightarrow> Policies \<Rightarrow> ResourceMeta option \<Rightarrow> error + Operation" where
  "makeResourceList model policies resourceMeta =
     bindE (generateFilterParameters model) (\<lambda>filters. Inr
       \<lparr>operationId = ''list-'' @ dm_name model,
        description = ''List '' @ dquote (dm_name model) @ '' resources'',
        tags = [lowerCaseFirst (dm_name model)],
        parameters = [parameter ''include'', parameter ''sort'', parameter ''page-offset'',
                      parameter ''page-limit''] @ filters,
        requestBody = None,
        responses = [(''200'', success (Some (dm_name model @ ''ListResponse''))),
                     (''403'', forbidden)],
        op_security = operation_security resourceMeta (pol_read policies)\<rparr>)"

definition makeResourceCreate ::
  "DataModel \<Rightarrow> Policies \<Rightarrow> ResourceMeta option \<Rightarrow> Operation" where
  "makeResourceCreate model policies resourceMeta =
     \<lparr>operationId = ''create-'' @ dm_name model,
      description = ''Create a '' @ dquote (dm_name model) @ '' resource'',
      tags = [lowerCaseFirst (dm_name model)],
      parameters = [],
      requestBody = Some (ref (dm_name model @ ''CreateRequest'')),
      responses = [(''201'', success (Some (dm_name model @ ''Response''))),
                   (''403'', forbidden), (''422'', validationError)],
      op_security = operation_security resourceMeta (pol_create policies)\<rparr>"

definition makeResourceFetch ::
  "DataModel \<Rightarrow> Policies \<Rightarrow> ResourceMeta option \<Rightarrow> Operation" where
  "makeResourceFetch model policies resourceMeta =
     \<lparr>operationId = ''fetch-'' @ dm_name model,
      description = ''Fetch a '' @ dquote (dm_name model) @ '' resource'',
      tags = [lowerCaseFirst (dm_name model)],
      parameters = [parameter ''id'', parameter ''include''],
      requestBody = None,
      responses = [(''200'', success (Some (dm_name model @ ''Response''))),
                   (''403'', forbidden), (''404'', notFound)],
      op_security = operation_security resourceMeta (pol_read policies)\<rparr>"

definition makeRelatedFetch ::
  "Generator \<Rightarrow> DataModel \<Rightarrow> DataModelField \<Rightarrow> string \<Rightarrow> ResourceMeta option \<Rightarrow> error + Operation" where
  "makeRelatedFetch g model field relationDecl resourceMeta =
     (let policies = analyzePolicies g relationDecl in
      bindE (if ft_array (f_type field)
             then bindE (generateFilterParameters model) (\<lambda>filters. Inr
                    ([parameter ''id'', parameter ''include'']
                     @ [parameter ''sort'', parameter ''page-offset'', parameter ''page-limit'']
                     @ filters))
             else Inr [parameter ''id'', parameter ''include''])
        (\<lambda>params. Inr
          \<lparr>operationId = ''fetch-'' @ dm_name model @ ''-related-'' @ f_name field,
           description = ''Fetch the related '' @ dquote (f_name field) @ '' resource for ''
                         @ dquote (dm_name model),
           tags = [lowerCaseFirst (dm_name model)],
           parameters = params,
           requestBody = None,
           responses = [(''200'', success (Some (if ft_array (f_type field)
                                                  then relationDecl @ ''ListResponse''
                                                  else relationDecl @ ''Response''))),
                        (''403'', forbidden), (''404'', notFound)],
           op_security = operation_security resourceMeta (pol_read policies)\<rparr>))"

definition makeResourceUpdate ::
  "DataModel \<Rightarrow> Policies \<Rightarrow> string \<Rightarrow> ResourceMeta option \<Rightarrow> Operation" where
  "makeResourceUpdate model policies opId resourceMeta =
     \<lparr>operationId = opId,
      description = ''Update a '' @ dquote (dm_name model) @ '' resource'',
      tags = [lowerCaseFirst (dm_name model)],
      parameters = [parameter ''id''],
      requestBody = Some (ref (dm_name model @ ''UpdateRequest'')),
      responses = [(''200'', success (Some (dm_name model @ ''Response''))),
                   (''403'', forbidden), (''404'', notFound), (''422'', validationError)],
      op_security = operation_security resourceMeta (pol_update policies)\<rparr>"

definition makeResourceDelete ::
  "DataModel \<Rightarrow> Policies \<Rightarrow> ResourceMeta option \<Rightarrow> Operation" where
  "makeResourceDelete model policies resourceMeta =
     \<lparr>operationId = ''delete-'' @ dm_name model,
      description = ''Delete a '' @ dquote (dm_name model) @ '' resource'',
      tags = [lowerCaseFirst (dm_name model)],
      parameters = [parameter ''id''],
      requestBody = None,
      responses = [(''200'', success None), (''403'', forbidden), (''404'', notFound)],
      op_security = operation_security resourceMeta (pol_delete policies)\<rparr>"

definition makeRelationshipFetch ::
  "DataModel \<Rightarrow> DataModelField \<Rightarrow> Policies \<Rightarrow> ResourceMeta option \<Rightarrow> error + Operation" where
  "makeRelationshipFetch model field policies resourceMeta =
     bindE (if ft_array (f_type field)
            then bindE (generateFilterParameters model) (\<lambda>filters. Inr
                   ([parameter ''id'']
                    @ [parameter ''sort'', parameter ''page-offset'', parameter ''page-limit'']
                    @ filters))
            else Inr [parameter ''id''])
       (\<lambda>params. Inr
         \<lparr>operationId = ''fetch-'' @ dm_name model @ ''-relationship-'' @ f_name field,
          description = ''Fetch the '' @ dquote (f_name field) @ '' relationships for a ''
                        @ dquote (dm_name model),
          tags = [lowerCaseFirst (dm_name model)],
          parameters = params,
          requestBody = None,
          responses = [(''200'', if ft_array (f_type field)
                                 then success (Some ''_toManyRelationshipResponse'')
                                 else success (Some ''_toOneRelationshipResponse'')),
                       (''403'', forbidden), (''404'', notFound)],
          op_security = operation_security resourceMeta (pol_read policies)\<rparr>)"

definition makeRelationshipCreate ::
  "DataModel \<Rightarrow> DataModelField \<Rightarrow> Policies \<Rightarrow> ResourceMeta option \<Rightarrow> Operation" where
  "makeRelationshipCreate model field policies resourceMeta =
     \<lparr>operationId = ''create-'' @ dm_name model @ ''-relationship-'' @ f_name field,
      description = ''Create new '' @ dquote (f_name field) @ '' relationships for a ''
                    @ dquote (dm_name model),
      tags = [lowerCaseFirst (dm_name model)],
      parameters = [parameter ''id''],
      requestBody = Some (ref ''_toManyRelationshipRequest''),
      responses = [(''200'', success (Some ''_toManyRelationshipResponse'')),
                   (''403'', forbidden), (''404'', notFound)],
      op_security = operation_security resourceMeta (pol_update policies)\<rparr>"

definition makeRelationshipUpdate ::
  "DataModel \<Rightarrow> DataModelField \<Rightarrow> Policies \<Rightarrow> string \<Rightarrow> ResourceMeta option \<Rightarrow> Operation" where
  "makeRelationshipUpdate model field policies opId resourceMeta =
     \<lparr>operationId = opId,
      description = ''Update '' @ dquote (f_name field) @ '' ''
                    @ (if ft_array (f_type field) then ''relationships'' else ''relationship'')
                    @ '' for a '' @ dquote (dm_name model),
      tags = [lowerCaseFirst (dm_name model)],
      parameters = [parameter ''id''],
      requestBody = Some (if ft_array (f_type field)
                          then ref ''_toManyRelationshipRequest''
                          else ref ''_toOneRelationshipRequest''),
      responses = [(''200'', if ft_array (f_type field)
                             then success (Some ''_toManyRelationshipResponse'')
                             else success (Some ''_toOneRelationshipResponse'')),
                   (''403'', forbidden), (''404'', notFound)],
      op_security = operation_security resourceMeta (pol_update policies)\<rparr>"

text \<open>
  The paths object is a JavaScript object: an association list in insertion order, where
  assigning an existing key keeps its place. \<open>container\<close> reads the path item stored under
  a path, or a fresh empty one.
\<close>

type_synonym paths = "(string \<times> PathItem) list"

definition container :: "paths \<Rightarrow> string \<Rightarrow> PathItem" where
  "container result path = (case map_of result path of None \<Rightarrow> empty_item | Some c \<Rightarrow> c)"

definition base_path :: "Generator \<Rightarrow> string \<Rightarrow> string" where
  "base_path g modelName =
     (let prefix = opt_prefix g;
          prefix = (if prefix \<noteq> [] \<and> last prefix = CHR ''/'' then butlast prefix else prefix)
      in prefix @ ''/'' @ lowerCaseFirst modelName)"

definition relatedDataPath :: "Generator \<Rightarrow> string \<Rightarrow> DataModelField \<Rightarrow> string" where
  "relatedDataPath g modelName field = base_path g modelName @ ''/{id}/'' @ f_name field"

definition relationshipPath :: "Generator \<Rightarrow> string \<Rightarrow> DataModelField \<Rightarrow> string" where
  "relationshipPath g modelName field =
     base_path g modelName @ ''/{id}/relationships/'' @ f_name field"

text \<open>The body of the loop over the fields of \<open>generatePathsForModel\<close>.\<close>

definition relationPaths ::
  "Generator \<Rightarrow> string \<Rightarrow> string \<Rightarrow> DataModel \<Rightarrow> Policies \<Rightarrow> ResourceMeta option
     \<Rightarrow> DataModelField \<Rightarrow> paths \<Rightarrow> error + paths" where
  "relationPaths g modelName model_name zmodel policies resourceMeta field result =
     (case ft_reference (f_type field) of
        Some (DataModelRef relationDecl) \<Rightarrow>
          bindE (makeRelatedFetch g zmodel field relationDecl resourceMeta) (\<lambda>relatedFetch.
          let result = AList.update (relatedDataPath g modelName field)
                         ((container result (relatedDataPath g modelName field))
                            \<lparr>pi_get := Some relatedFetch\<rparr>) result
          in
          bindE (makeRelationshipFetch zmodel field policies resourceMeta) (\<lambda>relationshipFetch.
          let c = (container result (relationshipPath g modelName field))
                    \<lparr>pi_get := Some relationshipFetch,
                     pi_put := Some (makeRelationshipUpdate zmodel field policies
                                 (''update-'' @ model_name @ ''-relationship-'' @ f_name field @ ''-put'')
                                 resourceMeta),
                     pi_patch := Some (makeRelationshipUpdate zmodel field policies
                                 (''update-'' @ model_name @ ''-relationship-'' @ f_name field @ ''-patch'')
                                 resourceMeta)\<rparr>;
              c = (if ft_array (f_type field)
                   then c\<lparr>pi_post := Some (makeRelationshipCreate zmodel field policies resourceMeta)\<rparr>
                   else c)
          in Inr (AList.update (relationshipPath g modelName field) c result)))
      | _ \<Rightarrow> Inr result)"

fun relationLoop ::
  "Generator \<Rightarrow> string \<Rightarrow> string \<Rightarrow> DataModel \<Rightarrow> Policies \<Rightarrow> ResourceMeta option
     \<Rightarrow> DataModelField list \<Rightarrow> paths \<Rightarrow> error + paths" where
  "relationLoop g modelName model_name zmodel policies resourceMeta [] result = Inr result"
| "relationLoop g modelName model_name zmodel policies resourceMeta (field # rest) result =
     bindE (relationPaths g modelName model_name zmodel policies resourceMeta field result)
       (\<lambda>result'. relationLoop g modelName model_name zmodel policies resourceMeta rest result')"

definition generatePathsForModel :: "Generator \<Rightarrow> string \<Rightarrow> DataModel \<Rightarrow> error + paths" where
  "generatePathsForModel g model_name zmodel =
     (let policies = analyzePolicies g (dm_name zmodel);
          resourceMeta = getModelResourceMeta g (dm_name zmodel);
          modelName = mapModelName g model_name
      in
      bindE (makeResourceList zmodel policies resourceMeta) (\<lambda>resourceList.
      let result = AList.update (base_path g modelName)
                     \<lparr>pi_get = Some resourceList,
                      pi_post = Some (makeResourceCreate zmodel policies resourceMeta),
                      pi_put = None, pi_patch = None, pi_delete = None\<rparr> [];
          result = AList.update (base_path g modelName @ ''/{id}'')
                     \<lparr>pi_get = Some (makeResourceFetch zmodel policies resourceMeta),
                      pi_post = None,
                      pi_put = Some (makeResourceUpdate zmodel policies
                                 (''update-'' @ modelName @ ''-put'') resourceMeta),
                      pi_patch = Some (makeResourceUpdate zmodel policies
                                 (''update-'' @ modelName @ ''-patch'') resourceMeta),
                      pi_delete = Some (makeResourceDelete zmodel policies resourceMeta)\<rparr> result
      in relationLoop g modelName model_name zmodel policies resourceMeta (dm_fields zmodel) result))"

text \<open>\<open>{...result, ...extra}\<close>: the keys of \<open>extra\<close> are assigned in order.\<close>

definition spread_merge :: "paths \<Rightarrow> paths \<Rightarrow> paths" where
  "spread_merge result extra = foldl (\<lambda>acc (k, v). AList.update k v acc) result extra"

fun find_data_model :: "Declaration list \<Rightarrow> string \<Rightarrow> DataModel option" where
  "find_data_model [] n = None"
| "find_data_model (DataModelD d # ds) n = (if dm_name d = n then Some d else find_data_model ds n)"
| "find_data_model (_ # ds) n = find_data_model ds n"

definition warning_for :: "string \<Rightarrow> string" where
  "warning_for n = ''Unable to load ZModel definition for: '' @ n @ ''}''"

text \<open>
  The loop of \<open>generatePaths\<close> over the DMMF models, threading the paths collected so far
  and the warnings of the instance.
\<close>

fun pathsLoop :: "Generator \<Rightarrow> string list \<Rightarrow> paths \<times> string list \<Rightarrow> error + (paths \<times> string list)" where
  "pathsLoop g [] st = Inr st"
| "pathsLoop g (model_name # rest) (result, warnings) =
     (if model_name \<in> set (map dm_name (includedModels g)) then
        (case find_data_model (declarations g) model_name of
           Some zmodel \<Rightarrow>
             bindE (generatePathsForModel g model_name zmodel)
               (\<lambda>extra. pathsLoop g rest (spread_merge result extra, warnings))
         | None \<Rightarrow> pathsLoop g rest (result, warnings @ [warning_for model_name]))
      else pathsLoop g rest (result, warnings))"

definition generatePaths :: "Generator \<Rightarrow> string list \<Rightarrow> error + (paths \<times> string list)" where
  "generatePaths g warnings = pathsLoop g (dmmf_models g) ([], warnings)"

section \<open>Component schema builder\<close>

datatype mode = Read | Create | Update

definition generateField :: "Generator \<Rightarrow> FieldType \<Rightarrow> error + jsval" where
  "generateField g t =
     bindE (fieldTypeToOpenAPISchema t) (\<lambda>s.
       Inr (wrapArray (wrapNullable (newNullable g) s (ft_optional t)) (ft_array t)))"

type_synonym properties = "(string \<times> jsval) list"

text \<open>
  The body of the loop of \<open>generateModelEntity\<close> over the fields, on the attributes, the
  relationships and the required names collected so far. Inside the attribute branch the
  declaration of the resolved type is the referenced declaration.
\<close>

definition entityField ::
  "Generator \<Rightarrow> mode \<Rightarrow> DataModelField \<Rightarrow> properties \<times> properties \<times> string list
     \<Rightarrow> error + (properties \<times> properties \<times> string list)" where
  "entityField g mode field st =
     (case st of (attributes, relationships, required) \<Rightarrow>
      if isForeignKeyField field \<and> mode \<noteq> Read then Inr st
      else if isRelationshipField field then
        (let relType =
           (if mode = Create \<or> mode = Update
            then (if ft_array (f_type field) then ''_toManyRelationship''
                  else ''_toOneRelationship'')
            else (if ft_array (f_type field) then ''_toManyRelationshipWithLinks''
                  else ''_toOneRelationshipWithLinks''))
         in Inr (attributes,
                 AList.update (f_name field)
                   (wrapNullable (newNullable g) (ref relType) (ft_optional (f_type field)))
                   relationships,
                 required))
      else
        bindE (generateField g (f_type field)) (\<lambda>s.
          Inr (AList.update (f_name field) s attributes, relationships,
               (if mode = Create \<and> \<not> ft_optional (f_type field)
                   \<and> \<not> hasAttribute field ''@default''
                   \<and> \<not> (isDataModelRef (ft_reference (f_type field)) \<and> ft_array (f_type field))
                then required @ [f_name field]
                else if mode = Read then required @ [f_name field]
                else required))))"

fun entityLoop ::
  "Generator \<Rightarrow> mode \<Rightarrow> DataModelField list \<Rightarrow> properties \<times> properties \<times> string list
     \<Rightarrow> error + (properties \<times> properties \<times> string list)" where
  "entityLoop g mode [] st = Inr st"
| "entityLoop g mode (field # rest) st =
     bindE (entityField g mode field st) (entityLoop g mode rest)"

definition generateModelEntity :: "Generator \<Rightarrow> DataModel \<Rightarrow> mode \<Rightarrow> error + jsval" where
  "generateModelEntity g model mode =
     (let idFields = filter isIdField (dm_fields model);
          fs = (if length idFields > 1 then dm_fields model
                else filter (\<lambda>f. \<not> isIdField f) (dm_fields model))
      in
      bindE (entityLoop g mode fs ([], [], [])) (\<lambda>(attributes, relationships, required).
      let toplevelRequired = [''type'', ''attributes''];
          props =
            [(''type'', JObj [(''type'', JStr ''string'')]),
             (''attributes'',
                JObj [(''type'', JStr ''object''),
                      (''required'', if length required > 0 then JArr (map JStr required)
                                     else JUndefined),
                      (''properties'', JObj attributes)])]
      in
      bindE (if length idFields = 1 then fieldTypeToOpenAPISchema (f_type (hd idFields))
             else Inr (JObj [(''type'', JStr ''string'')])) (\<lambda>idFieldSchema.
      let withId =
            (if mode = Create
             then (if length idFields = 1 \<and> \<not> hasAttribute (hd idFields) ''@default''
                   then ((''id'', idFieldSchema) # props, ''id'' # toplevelRequired)
                   else (props, toplevelRequired))
             else ((''id'', idFieldSchema) # props, ''id'' # toplevelRequired));
          props = fst withId;
          toplevelRequired = snd withId;
          props = (if length relationships > 0
                   then AList.update ''relationships''
                          (JObj [(''type'', JStr ''object''), (''properties'', JObj relationships)])
                          props
                   else props)
      in Inr (JObj [(''type'', JStr ''object''),
                    (''description'', JStr (''The '' @ dquote (dm_name model) @ '' model'')),
                    (''required'', JArr (map JStr toplevelRequired)),
                    (''properties'', JObj props)]))))"

subsection \<open>Shared, enum, type definition and data model components\<close>

definition typed :: "string \<Rightarrow> string \<times> jsval" where
  "typed t = (''type'', JStr t)"

definition described :: "string \<Rightarrow> string \<times> jsval" where
  "described d = (''description'', JStr d)"

definition string_with :: "string \<Rightarrow> jsval" where
  "string_with d = JObj [typed ''string'', described d]"

definition generateSharedComponents :: "Generator \<Rightarrow> properties" where
  "generateSharedComponents g =
  [(''_jsonapi'',
      JObj [typed ''object'',
            described (''An object describing the server'' @ [CHR 0xE2, CHR 0x80, CHR 0x99]
                       @ ''s implementation''),
            (''required'', JArr [JStr ''version'']),
            (''properties'', JObj [(''version'', JObj [typed ''string''])])]),
   (''_meta'',
      JObj [typed ''object'',
            described ''Meta information about the request or response'',
            (''properties'',
               JObj [(''serialization'', JObj [described ''Superjson serialization metadata''])]),
            (''additionalProperties'', JBool True)]),
   (''_resourceIdentifier'',
      JObj [typed ''object'',
            described ''Identifier for a resource'',
            (''required'', JArr [JStr ''type'', JStr ''id'']),
            (''properties'',
               JObj [(''type'', string_with ''Resource type''),
                     (''id'', string_with ''Resource id'')])]),
   (''_resource'',
      allOf [ref ''_resourceIdentifier'',
             JObj [typed ''object'',
                   described ''A resource with attributes and relationships'',
                   (''properties'',
                      JObj [(''attributes'', JObj [typed ''object'', described ''Resource attributes'']),
                            (''relationships'',
                               JObj [typed ''object'', described ''Resource relationships''])])]]),
   (''_links'',
      JObj [typed ''object'',
            (''required'', JArr [JStr ''self'']),
            described ''Links related to the resource'',
            (''properties'',
               JObj [(''self'', string_with ''Link for refetching the curent results'')])]),
   (''_pagination'',
      JObj [typed ''object'',
            described ''Pagination information'',
            (''required'', JArr [JStr ''first'', JStr ''last'', JStr ''prev'', JStr ''next'']),
            (''properties'',
               JObj [(''first'', wrapNullable (newNullable g) (string_with ''Link to the first page'') True),
                     (''last'', wrapNullable (newNullable g) (string_with ''Link to the last page'') True),
                     (''prev'', wrapNullable (newNullable g) (string_with ''Link to the previous page'') True),
                     (''next'', wrapNullable (newNullable g) (string_with ''Link to the next page'') True)])]),
   (''_errors'',
      JObj [typed ''array'',
            described ''An array of error objects'',
            (''items'',
               JObj [typed ''object'',
                     (''required'', JArr [JStr ''status'', JStr ''code'']),
                     (''properties'',
                        JObj [(''status'', string_with ''HTTP status''),
                              (''code'', string_with ''Error code''),
                              (''prismaCode'',
                                 string_with ''Prisma error code if the error is thrown by Prisma''),
                              (''title'', string_with ''Error title''),
                              (''detail'', string_with ''Error detail''),
                              (''reason'', string_with ''Detailed error reason''),
                              (''zodErrors'',
                                 JObj [typed ''object'',
                                       (''additionalProperties'', JBool True),
                                       described ''Zod validation errors if the error is due to data validation failure''])])])]),
   (''_errorResponse'',
      JObj [typed ''object'',
            (''required'', JArr [JStr ''errors'']),
            described ''An error response'',
            (''properties'', JObj [(''jsonapi'', ref ''_jsonapi''), (''errors'', ref ''_errors'')])]),
   (''_relationLinks'',
      JObj [typed ''object'',
            (''required'', JArr [JStr ''self'', JStr ''related'']),
            described ''Links related to a relationship'',
            (''properties'',
               JObj [(''self'', string_with ''Link for fetching this relationship''),
                     (''related'',
                        string_with ''Link for fetching the resource represented by this relationship'')])]),
   (''_toOneRelationship'',
      JObj [typed ''object'',
            described ''A to-one relationship'',
            (''properties'',
               JObj [(''data'', wrapNullable (newNullable g) (ref ''_resourceIdentifier'') True)])]),
   (''_toOneRelationshipWithLinks'',
      JObj [typed ''object'',
            (''required'', JArr [JStr ''links'', JStr ''data'']),
            described ''A to-one relationship with links'',
            (''properties'',
               JObj [(''links'', ref ''_relationLinks''),
                     (''data'', wrapNullable (newNullable g) (ref ''_resourceIdentifier'') True)])]),
   (''_toManyRelationship'',
      JObj [typed ''object'',
            (''required'', JArr [JStr ''data'']),
            described ''A to-many relationship'',
            (''properties'', JObj [(''data'', array_schema (ref ''_resourceIdentifier''))])]),
   (''_toManyRelationshipWithLinks'',
      JObj [typed ''object'',
            (''required'', JArr [JStr ''links'', JStr ''data'']),
            described ''A to-many relationship with links'',
            (''properties'',
               JObj [(''links'', ref ''_pagedRelationLinks''),
                     (''data'', array_schema (ref ''_resourceIdentifier''))])]),
   (''_pagedRelationLinks'',
      JObj (described ''Relationship links with pagination information''
            # spread (allOf [ref ''_pagination'', ref ''_relationLinks'']))),
   (''_toManyRelationshipRequest'',
      JObj [typed ''object'',
            (''required'', JArr [JStr ''data'']),
            described ''Input for manipulating a to-many relationship'',
            (''properties'',
               JObj [(''data'', JObj [typed ''array'', (''items'', ref ''_resourceIdentifier'')])])]),
   (''_toOneRelationshipRequest'',
      JObj (described ''Input for manipulating a to-one relationship''
            # spread (wrapNullable (newNullable g)
                        (JObj [typed ''object'',
                               (''required'', JArr [JStr ''data'']),
                               (''properties'', JObj [(''data'', ref ''_resourceIdentifier'')])])
                        True))),
   (''_toManyRelationshipResponse'',
      JObj (described ''Response for a to-many relationship''
            # spread (allOf [ref ''_toManyRelationshipWithLinks'',
                             JObj [typed ''object'',
                                   (''properties'', JObj [(''jsonapi'', ref ''_jsonapi'')])]]))),
   (''_toOneRelationshipResponse'',
      JObj (described ''Response for a to-one relationship''
            # spread (allOf [ref ''_toOneRelationshipWithLinks'',
                             JObj [typed ''object'',
                                   (''properties'', JObj [(''jsonapi'', ref ''_jsonapi'')])]])))]"

definition generateEnumComponent :: "EnumDecl \<Rightarrow> jsval" where
  "generateEnumComponent e =
     JObj [typed ''string'',
           described (''The '' @ dquote (en_name e) @ '' Enum''),
           (''enum'', JArr (map JStr (en_fields e)))]"

text \<open>The \<open>reduce\<close> over the fields of a type definition.\<close>

fun typeDefProperties :: "Generator \<Rightarrow> TypeDefField list \<Rightarrow> properties \<Rightarrow> error + properties" where
  "typeDefProperties g [] acc = Inr acc"
| "typeDefProperties g (field # rest) acc =
     bindE (generateField g (tf_type field))
       (\<lambda>s. typeDefProperties g rest (AList.update (tf_name field) s acc))"

definition generateTypeDefComponent :: "Generator \<Rightarrow> TypeDef \<Rightarrow> error + jsval" where
  "generateTypeDefComponent g typeDef =
     bindE (typeDefProperties g (td_fields typeDef) []) (\<lambda>props.
       Inr (JObj [typed ''object'',
                  described (''The '' @ dquote (td_name typeDef) @ '' TypeDef''),
                  (''properties'', JObj props)]))"

text \<open>The relationships object of the response schemas: one entry per relationship field.\<close>

fun responseRelationships :: "DataModelField list \<Rightarrow> properties \<Rightarrow> properties" where
  "responseRelationships [] acc = acc"
| "responseRelationships (field # rest) acc =
     responseRelationships rest
       (if isRelationshipField field
        then AList.update (f_name field)
               (if ft_array (f_type field) then ref ''_toManyRelationship''
                else ref ''_toOneRelationship'') acc
        else acc)"

definition responseData :: "DataModel \<Rightarrow> properties \<Rightarrow> jsval" where
  "responseData model relationships =
     allOf [ref (dm_name model),
            JObj [typed ''object'',
                  (''properties'',
                     JObj [(''relationships'',
                              JObj [typed ''object'', (''properties'', JObj relationships)])])]]"

definition generateDataModelComponents :: "Generator \<Rightarrow> DataModel \<Rightarrow> error + properties" where
  "generateDataModelComponents g model =
     bindE (generateModelEntity g model Read) (\<lambda>readEntity.
     bindE (generateModelEntity g model Create) (\<lambda>createEntity.
     bindE (generateModelEntity g model Update) (\<lambda>updateEntity.
     let result = AList.update (dm_name model) readEntity [];
         result = AList.update (dm_name model @ ''CreateRequest'')
                    (JObj [typed ''object'',
                           described (''Input for creating a '' @ dquote (dm_name model)),
                           (''required'', JArr [JStr ''data'']),
                           (''properties'', JObj [(''data'', createEntity), (''meta'', ref ''_meta'')])])
                    result;
         result = AList.update (dm_name model @ ''UpdateRequest'')
                    (JObj [typed ''object'',
                           described (''Input for updating a '' @ dquote (dm_name model)),
                           (''required'', JArr [JStr ''data'']),
                           (''properties'', JObj [(''data'', updateEntity), (''meta'', ref ''_meta'')])])
                    result;
         relationships = responseRelationships (dm_fields model) [];
         result = AList.update (dm_name model @ ''Response'')
                    (JObj [typed ''object'',
                           described (''Response for a '' @ dquote (dm_name model)),
                           (''required'', JArr [JStr ''data'']),
                           (''properties'',
                              JObj [(''jsonapi'', ref ''_jsonapi''),
                                    (''data'', responseData model relationships),
                                    (''meta'', ref ''_meta''),
                                    (''included'', JObj [typed ''array'', (''items'', ref ''_resource'')]),
                                    (''links'', ref ''_links'')])])
                    result;
         result = AList.update (dm_name model @ ''ListResponse'')
                    (JObj [typed ''object'',
                           described (''Response for a list of '' @ dquote (dm_name model)),
                           (''required'', JArr [JStr ''data'', JStr ''links'']),
                           (''properties'',
                              JObj [(''jsonapi'', ref ''_jsonapi''),
                                    (''data'', array_schema (responseData model relationships)),
                                    (''meta'', ref ''_meta''),
                                    (''included'', JObj [typed ''array'', (''items'', ref ''_resource'')]),
                                    (''links'', allOf [ref ''_links'', ref ''_pagination''])])])
                    result
     in Inr result)))"

text \<open>Assigning the entries of an object to \<open>schemas\<close>, in order.\<close>

definition assign_all :: "properties \<Rightarrow> properties \<Rightarrow> properties" where
  "assign_all schemas entries = foldl (\<lambda>acc (k, v). AList.update k v acc) schemas entries"

fun enumLoop :: "Declaration list \<Rightarrow> properties \<Rightarrow> properties" where
  "enumLoop [] schemas = schemas"
| "enumLoop (EnumD e # rest) schemas =
     enumLoop rest (AList.update (en_name e) (generateEnumComponent e) schemas)"
| "enumLoop (d # rest) schemas = enumLoop rest schemas"

fun dataModelLoop :: "Generator \<Rightarrow> DataModel list \<Rightarrow> properties \<Rightarrow> error + properties" where
  "dataModelLoop g [] schemas = Inr schemas"
| "dataModelLoop g (model # rest) schemas =
     bindE (generateDataModelComponents g model)
       (\<lambda>entries. dataModelLoop g rest (assign_all schemas entries))"

fun typeDefLoop :: "Generator \<Rightarrow> Declaration list \<Rightarrow> properties \<Rightarrow> error + properties" where
  "typeDefLoop g [] schemas = Inr schemas"
| "typeDefLoop g (TypeDefD t # rest) schemas =
     bindE (generateTypeDefComponent g t)
       (\<lambda>s. typeDefLoop g rest (AList.update (td_name t) s schemas))"
| "typeDefLoop g (d # rest) schemas = typeDefLoop g rest schemas"

text \<open>
  The schemas of \<open>generateComponents\<close>; \<open>getDataModels\<close> of the SDK is the list
  \<open>dataModels\<close> of the generator.
\<close>

definition generateComponents :: "Generator \<Rightarrow> error + properties" where
  "generateComponents g =
     (let schemas = assign_all [] (generateSharedComponents g);
          schemas = enumLoop (declarations g) schemas
      in bindE (dataModelLoop g (dataModels g) schemas)
           (\<lambda>schemas. typeDefLoop g (declarations g) schemas))"

section \<open>Notions used by the properties\<close>

text \<open>
  The entity has a resource-level security override: its metadata has a \<open>security\<close>
  property.
\<close>

definition has_security_override :: "ResourceMeta option \<Rightarrow> bool" where
  "has_security_override resourceMeta =
     (case resourceMeta of None \<Rightarrow> False | Some m \<Rightarrow> security m \<noteq> None)"

text \<open>
  Security as the specification words it: the empty list when there is an override or the
  policy is the boolean \<open>true\<close>, unset otherwise.
\<close>

definition open_security :: "ResourceMeta option \<Rightarrow> jsval \<Rightarrow> jsval list option" where
  "open_security resourceMeta policy =
     (if has_security_override resourceMeta \<or> policy = JBool True then Some [] else None)"

text \<open>
  Security by the value of the override: the override counts when it is neither undefined
  nor null, and then opens the operation exactly when it is truthy (every object and every
  array is, an empty one too; \<open>false\<close>, \<open>0\<close> and the empty string are not); without such a
  value the policy decides.
\<close>

definition override_counts :: "ResourceMeta option \<Rightarrow> bool" where
  "override_counts resourceMeta =
     (meta_security resourceMeta \<noteq> JUndefined \<and> meta_security resourceMeta \<noteq> JNull)"

definition effective_security :: "ResourceMeta option \<Rightarrow> jsval \<Rightarrow> jsval list option" where
  "effective_security resourceMeta policy =
     (if (override_counts resourceMeta \<and> truthy (meta_security resourceMeta))
         \<or> (\<not> override_counts resourceMeta \<and> policy = JBool True)
      then Some [] else None)"

text \<open>The path item stored under the relationships path of a field.\<close>

definition relationship_item ::
  "DataModel \<Rightarrow> string \<Rightarrow> DataModelField \<Rightarrow> Policies \<Rightarrow> ResourceMeta option \<Rightarrow> Operation
     \<Rightarrow> PathItem" where
  "relationship_item zmodel model_name field policies resourceMeta relationshipFetch =
     \<lparr>pi_get = Some relationshipFetch,
      pi_post = (if ft_array (f_type field)
                 then Some (makeRelationshipCreate zmodel field policies resourceMeta) else None),
      pi_put = Some (makeRelationshipUpdate zmodel field policies
                 (''update-'' @ model_name @ ''-relationship-'' @ f_name field @ ''-put'') resourceMeta),
      pi_patch = Some (makeRelationshipUpdate zmodel field policies
                 (''update-'' @ model_name @ ''-relationship-'' @ f_name field @ ''-patch'') resourceMeta),
      pi_delete = None\<rparr>"

text \<open>Field names as a valid model has them: pairwise distinct identifiers, so without a slash.\<close>

definition field_names_ok :: "DataModelField list \<Rightarrow> bool" where
  "field_names_ok fs = (distinct (map f_name fs) \<and> list_all (\<lambda>f. CHR ''/'' \<notin> set (f_name f)) fs)"

text \<open>
  An operation is present and its security is the one the specification words for the given
  policy value.
\<close>

definition secured_by :: "Operation option \<Rightarrow> ResourceMeta option \<Rightarrow> jsval \<Rightarrow> bool" where
  "secured_by operation resourceMeta policy =
     (case operation of
        None \<Rightarrow> False
      | Some op \<Rightarrow> op_security op = effective_security resourceMeta policy)"

text \<open>The name of a parameter: of a reference its target, of a parameter object its name.\<close>

fun parameter_name :: "Parameter \<Rightarrow> string" where
  "parameter_name (ParameterRef r) = r"
| "parameter_name (ParameterObject n req d i st e sch) = n"

text \<open>The operations of a path item and the operation ids of a paths object, in order.\<close>

definition operations :: "PathItem \<Rightarrow> Operation list" where
  "operations item =
     concat (map (\<lambda>m. case m item of None \<Rightarrow> [] | Some op \<Rightarrow> [op])
       [pi_get, pi_post, pi_put, pi_patch, pi_delete])"

definition operation_ids :: "paths \<Rightarrow> string list" where
  "operation_ids result = concat (map (\<lambda>(p, item). map operationId (operations item)) result)"





text \<open>Reading a schema: a member of an object, its properties and its required names.\<close>

fun member :: "string \<Rightarrow> jsval \<Rightarrow> jsval option" where
  "member k (JObj kvs) = map_of kvs k"
| "member k v = None"

definition has_property :: "string \<Rightarrow> jsval \<Rightarrow> bool" where
  "has_property k schema =
     (case member ''properties'' schema of None \<Rightarrow> False | Some p \<Rightarrow> has_key k p)"

definition requires :: "string \<Rightarrow> jsval \<Rightarrow> bool" where
  "requires k schema =
     (case member ''required'' schema of Some (JArr names) \<Rightarrow> JStr k \<in> set names | _ \<Rightarrow> False)"

text \<open>The entity has a single identifier field, and that field has no \<open>@default\<close>.\<close>

definition single_id_without_default :: "DataModel \<Rightarrow> bool" where
  "single_id_without_default model =
     (case filter isIdField (dm_fields model) of
        [f] \<Rightarrow> \<not> hasAttribute f ''@default''
      | _ \<Rightarrow> False)"

section \<open>Document assembler: the pruning pass\<close>

text \<open>
  Modelled from the spec: \<open>pruneComponents\<close> of the base class is not part of the sources
  at hand. The pass traverses every \<open>$ref\<close> reachable from the generated paths (request
  bodies, response schemas, parameter schemas, and transitively from any schema reached) and
  removes every named component that is not reachable.
\<close>

definition schema_prefix :: string where
  "schema_prefix = ''#/components/schemas/''"

definition schema_ref_name :: "string \<Rightarrow> string option" where
  "schema_ref_name s =
     (if take (length schema_prefix) s = schema_prefix
      then Some (drop (length schema_prefix) s) else None)"

fun ref_target :: "jsval \<Rightarrow> string list" where
  "ref_target (JStr s) = (case schema_ref_name s of None \<Rightarrow> [] | Some n \<Rightarrow> [n])"
| "ref_target v = []"

fun collect_refs :: "jsval \<Rightarrow> string list"
  and collect_refs_list :: "jsval list \<Rightarrow> string list"
  and collect_refs_members :: "(string \<times> jsval) list \<Rightarrow> string list" where
  "collect_refs (JObj kvs) = collect_refs_members kvs"
| "collect_refs (JArr xs) = collect_refs_list xs"
| "collect_refs JUndefined = []"
| "collect_refs JNull = []"
| "collect_refs (JBool b) = []"
| "collect_refs (JNum n) = []"
| "collect_refs (JStr s) = []"
| "collect_refs_list [] = []"
| "collect_refs_list (x # xs) = collect_refs x @ collect_refs_list xs"
| "collect_refs_members [] = []"
| "collect_refs_members ((k, v) # kvs) =
     (if k = ''$ref'' then ref_target v else collect_refs v) @ collect_refs_members kvs"

definition parameter_refs :: "Parameter \<Rightarrow> string list" where
  "parameter_refs p =
     (case p of
        ParameterRef r \<Rightarrow> ref_target (JStr r)
      | ParameterObject n req d i st e sch \<Rightarrow> collect_refs sch)"

definition option_refs :: "jsval option \<Rightarrow> string list" where
  "option_refs s = (case s of None \<Rightarrow> [] | Some v \<Rightarrow> collect_refs v)"

definition operation_refs :: "Operation \<Rightarrow> string list" where
  "operation_refs op =
     concat (map parameter_refs (parameters op))
     @ option_refs (requestBody op)
     @ concat (map (\<lambda>(code, r). option_refs (r_schema r)) (responses op))"

definition path_refs :: "paths \<Rightarrow> string list" where
  "path_refs ps = concat (map (\<lambda>(p, item). concat (map operation_refs (operations item))) ps)"

text \<open>
  The names reached from a work list: a name that is not a component has no schema to
  traverse; a component is traversed once.
\<close>

function reach :: "properties \<Rightarrow> string list \<Rightarrow> string list \<Rightarrow> string list" where
  "reach schemas [] visited = visited"
| "reach schemas (n # todo) visited =
     (if n \<in> set visited then reach schemas todo visited
      else case map_of schemas n of
             None \<Rightarrow> reach schemas todo visited
           | Some s \<Rightarrow> reach schemas (collect_refs s @ todo) (n # visited))"
  by pat_completeness auto
termination
proof (relation "measures [\<lambda>(schemas, todo, visited). card (fst ` set schemas - set visited),
                          \<lambda>(schemas, todo, visited). length todo]")
  show "wf (measures [\<lambda>(schemas, todo, visited). card (fst ` set schemas - set visited),
                      \<lambda>(schemas, todo, visited). length todo])"
    by simp
next
  fix schemas :: properties and n todo visited
  show "((schemas, todo, visited), (schemas, n # todo, visited))
     \<in> measures [\<lambda>(schemas, todo, visited). card (fst ` set schemas - set visited),
                  \<lambda>(schemas, todo, visited). length todo]"
    by simp
next
  fix schemas :: properties and n todo visited
  show "((schemas, todo, visited), (schemas, n # todo, visited))
     \<in> measures [\<lambda>(schemas, todo, visited). card (fst ` set schemas - set visited),
                  \<lambda>(schemas, todo, visited). length todo]"
    by simp
next
  fix schemas :: properties and n todo visited s
  assume new: "n \<notin> set visited" and s: "map_of schemas n = Some s"
  have "n \<in> fst ` set schemas"
    using s by (force dest: map_of_SomeD)
  then have "fst ` set schemas - set (n # visited) \<subset> fst ` set schemas - set visited"
    using new by auto
  then have "card (fst ` set schemas - set (n # visited)) < card (fst ` set schemas - set visited)"
    by (intro psubset_card_mono) simp_all
  then show "((schemas, collect_refs s @ todo, n # visited), (schemas, n # todo, visited))
     \<in> measures [\<lambda>(schemas, todo, visited). card (fst ` set schemas - set visited),
                  \<lambda>(schemas, todo, visited). length todo]"
    by simp
qed

definition pruneComponents :: "paths \<Rightarrow> properties \<Rightarrow> properties" where
  "pruneComponents ps schemas =
     filter (\<lambda>(k, v). k \<in> set (reach schemas (path_refs ps) [])) schemas"

text \<open>
  \<open>generate\<close> up to the pruning pass: the component schemas, the paths, and the pruned
  schemas. The security schemes, the document metadata and the output file, which follow,
  leave the paths and the schemas as they are.
\<close>

definition generate :: "Generator \<Rightarrow> error + (paths \<times> properties \<times> string list)" where
  "generate g =
     bindE (generateComponents g) (\<lambda>schemas.
     bindE (generatePaths g []) (\<lambda>(ps, warnings).
       Inr (ps, pruneComponents ps schemas, warnings)))"

text \<open>
  The reference graph of a component set: an edge from a component to each name its schema
  references; the names reachable from a list of roots.
\<close>

definition edges :: "properties \<Rightarrow> (string \<times> string) set" where
  "edges schemas = {(a, b). \<exists>s. map_of schemas a = Some s \<and> b \<in> set (collect_refs s)}"

definition reachable :: "properties \<Rightarrow> string list \<Rightarrow> string set" where
  "reachable schemas roots = (edges schemas)\<^sup>* `` set roots"

text \<open>The successors of every visited component are visited or still to do.\<close>

definition expanded :: "properties \<Rightarrow> string list \<Rightarrow> string list \<Rightarrow> bool" where
  "expanded S todo visited =
     (\<forall>a \<in> set visited. \<forall>b. (a, b) \<in> edges S \<longrightarrow> b \<in> fst ` set S \<longrightarrow>
         b \<in> set visited \<union> set todo)"


section \<open>Component names and well-formed model graphs\<close>

definition shared_names :: "string list" where
  "shared_names =
     [''_jsonapi'', ''_meta'', ''_resourceIdentifier'', ''_resource'', ''_links'', ''_pagination'',
      ''_errors'', ''_errorResponse'', ''_relationLinks'', ''_toOneRelationship'',
      ''_toOneRelationshipWithLinks'', ''_toManyRelationship'', ''_toManyRelationshipWithLinks'',
      ''_pagedRelationLinks'', ''_toManyRelationshipRequest'', ''_toOneRelationshipRequest'',
      ''_toManyRelationshipResponse'', ''_toOneRelationshipResponse'']"

definition model_component_names :: "string \<Rightarrow> string list" where
  "model_component_names n =
     [n, n @ ''CreateRequest'', n @ ''UpdateRequest'', n @ ''Response'', n @ ''ListResponse'']"

fun enum_names :: "Declaration list \<Rightarrow> string list" where
  "enum_names [] = []"
| "enum_names (EnumD e # rest) = en_name e # enum_names rest"
| "enum_names (d # rest) = enum_names rest"

fun type_defs :: "Declaration list \<Rightarrow> TypeDef list" where
  "type_defs [] = []"
| "type_defs (TypeDefD t # rest) = t # type_defs rest"
| "type_defs (d # rest) = type_defs rest"

definition component_names :: "Generator \<Rightarrow> string list" where
  "component_names g =
     shared_names @ enum_names (declarations g)
     @ concat (map (\<lambda>m. model_component_names (dm_name m)) (dataModels g))
     @ map td_name (type_defs (declarations g))"

text \<open>
  A field type resolves when its reference, if any, points to a declared enum, a declared
  type definition, or a data model that gets components.
\<close>

definition resolves :: "Generator \<Rightarrow> FieldType \<Rightarrow> bool" where
  "resolves g t =
     (case ft_reference t of
        None \<Rightarrow> True
      | Some (EnumRef n) \<Rightarrow> n \<in> set (enum_names (declarations g))
      | Some (TypeDefRef n) \<Rightarrow> n \<in> set (map td_name (type_defs (declarations g)))
      | Some (DataModelRef n) \<Rightarrow> n \<in> set (map dm_name (dataModels g)))"

definition references_resolve :: "Generator \<Rightarrow> bool" where
  "references_resolve g =
     (list_all (\<lambda>m. list_all (\<lambda>f. resolves g (f_type f)) (dm_fields m)) (dataModels g)
      \<and> list_all (\<lambda>t. list_all (\<lambda>f. resolves g (tf_type f)) (td_fields t))
           (type_defs (declarations g)))"

text \<open>Every model that gets paths is one of the data models that get components.\<close>

definition models_have_components :: "Generator \<Rightarrow> bool" where
  "models_have_components g =
     list_all (\<lambda>n. n \<in> set (map dm_name (includedModels g)) \<longrightarrow>
                 (case find_data_model (declarations g) n of
                    None \<Rightarrow> True
                  | Some z \<Rightarrow> z \<in> set (dataModels g)))
       (dmmf_models g)"

text \<open>The names a field type may reference.\<close>

definition type_refs :: "FieldType \<Rightarrow> string set" where
  "type_refs t = (case ft_reference t of None \<Rightarrow> {} | Some d \<Rightarrow> {ref_name d})"

text \<open>All schemas of a component set reference names of a given set only.\<close>

definition within :: "string set \<Rightarrow> properties \<Rightarrow> bool" where
  "within C schemas = (\<forall>(k, s) \<in> set schemas. set (collect_refs s) \<subseteq> C)"

text \<open>The names an entity schema may reference.\<close>

definition relationship_shapes :: "string set" where
  "relationship_shapes =
     {''_toManyRelationship'', ''_toOneRelationship'', ''_toManyRelationshipWithLinks'',
      ''_toOneRelationshipWithLinks''}"

definition entity_bound :: "DataModelField list \<Rightarrow> string set" where
  "entity_bound fs = relationship_shapes \<union> (\<Union>f \<in> set fs. type_refs (f_type f))"

definition model_bound :: "DataModel \<Rightarrow> string set" where
  "model_bound model =
     entity_bound (dm_fields model)
     \<union> {''_meta'', ''_jsonapi'', ''_resource'', ''_links'', ''_pagination'', dm_name model}"

text \<open>All operations of a path item, and of a paths object, reference names of a given set only.\<close>

definition item_within :: "string set \<Rightarrow> PathItem \<Rightarrow> bool" where
  "item_within C item = (\<forall>op \<in> set (operations item). set (operation_refs op) \<subseteq> C)"

definition paths_within :: "string set \<Rightarrow> paths \<Rightarrow> bool" where
  "paths_within C ps = (\<forall>(p, item) \<in> set ps. item_within C item)"

text \<open>The names the operations of a model may reference.\<close>

definition related_names :: "DataModelField \<Rightarrow> string set" where
  "related_names f =
     (case ft_reference (f_type f) of
        Some (DataModelRef rel) \<Rightarrow> set (model_component_names rel)
      | _ \<Rightarrow> {})"

definition path_bound :: "DataModel \<Rightarrow> string set" where
  "path_bound z =
     {''_errorResponse'', ''_toManyRelationshipRequest'', ''_toOneRelationshipRequest'',
      ''_toManyRelationshipResponse'', ''_toOneRelationshipResponse''}
     \<union> set (model_component_names (dm_name z))
     \<union> (\<Union>f \<in> set (dm_fields z). type_refs (f_type f))
     \<union> (\<Union>f \<in> set (dm_fields z). related_names f)"

section \<open>A sample model\<close>

text \<open>
  The model of the test \<open>security schemes valid\<close>: a \<open>User\<close> with many \<open>Post\<close>s, each
  \<open>Post\<close> with its author; reading posts is allowed unconditionally.
\<close>

definition string_type :: FieldType where
  "string_type = \<lparr>ft_type = Some ''String'', ft_reference = None, ft_array = False,
     ft_optional = False\<rparr>"

definition user_id :: DataModelField where
  "user_id = \<lparr>f_name = ''id'', f_type = string_type, f_attributes = [''@id''], f_isId = True,
     f_isForeignKey = False\<rparr>"

definition user_posts :: DataModelField where
  "user_posts = \<lparr>f_name = ''posts'',
     f_type = \<lparr>ft_type = None, ft_reference = Some (DataModelRef ''Post''), ft_array = True,
       ft_optional = False\<rparr>,
     f_attributes = [], f_isId = False, f_isForeignKey = False\<rparr>"

definition sample_user :: DataModel where
  "sample_user = \<lparr>dm_name = ''User'', dm_fields = [user_id, user_posts]\<rparr>"

definition post_id :: DataModelField where
  "post_id = \<lparr>f_name = ''id'', f_type = string_type, f_attributes = [''@id''], f_isId = True,
     f_isForeignKey = False\<rparr>"

definition post_author :: DataModelField where
  "post_author = \<lparr>f_name = ''author'',
     f_type = \<lparr>ft_type = None, ft_reference = Some (DataModelRef ''User''), ft_array = False,
       ft_optional = False\<rparr>,
     f_attributes = [''@relation''], f_isId = False, f_isForeignKey = False\<rparr>"

definition post_authorId :: DataModelField where
  "post_authorId = \<lparr>f_name = ''authorId'', f_type = string_type, f_attributes = [],
     f_isId = False, f_isForeignKey = True\<rparr>"

definition sample_post :: DataModel where
  "sample_post = \<lparr>dm_name = ''Post'', dm_fields = [post_id, post_author, post_authorId]\<rparr>"

definition sample_policies :: "string \<Rightarrow> Policies" where
  "sample_policies n = \<lparr>pol_read = JBool (n = ''Post''), pol_create = JBool False,
     pol_update = JBool False, pol_delete = JBool False\<rparr>"

definition sample :: Generator where
  "sample = \<lparr>declarations = [DataModelD sample_user, DataModelD sample_post],
     dmmf_models = [''User'', ''Post''],
     includedModels = [sample_user, sample_post],
     dataModels = [sample_user, sample_post],
     modelNameMapping = [], opt_prefix = [], newNullable = False,
     analyzePolicies = sample_policies,
     getModelResourceMeta = (\<lambda>n. None)\<rparr>"

text \<open>
  The same model with the annotation of the test \<open>security model level override\<close> on
  \<open>User\<close>: \<open>@@openapi.meta({ security: [] })\<close>.
\<close>

definition sample_override :: Generator where
  "sample_override = sample\<lparr>getModelResourceMeta :=
     (\<lambda>n. if n = ''User'' then Some \<lparr>tagDescription = None, security = Some (JArr [])\<rparr>
          else None)\<rparr>"


text \<open>The sample model with a name mapping whose value contains dashes.\<close>

definition sample_mapped :: Generator where
  "sample_mapped = sample\<lparr>modelNameMapping := [(''Post'', ''User-relationship-posts'')]\<rparr>"

section \<open>Models with particular identifiers\<close>

text \<open>
  \<open>Profile\<close>: the single identifier \<open>userId\<close> is also the foreign key of \<open>user\<close>.
  \<open>Membership\<close>: a compound identifier of two foreign keys. \<open>Item\<close>: the identifier is
  \<open>key\<close>, and another field is named \<open>id\<close>. \<open>Scoped\<close>: a compound identifier with a
  component named \<open>id\<close>.
\<close>

definition plain_field :: "string \<Rightarrow> string \<Rightarrow> bool \<Rightarrow> bool \<Rightarrow> DataModelField" where
  "plain_field n t isId isFk =
     \<lparr>f_name = n,
      f_type = \<lparr>ft_type = Some t, ft_reference = None, ft_array = False, ft_optional = False\<rparr>,
      f_attributes = [], f_isId = isId, f_isForeignKey = isFk\<rparr>"






text \<open>
  \<open>Space\<close> of the sample Todo model: its identifier is \<open>id String @id @default(uuid())\<close>.
\<close>

definition sample_space :: DataModel where
  "sample_space = \<lparr>dm_name = ''Space'', dm_fields =
     [(plain_field ''id'' ''String'' True False)\<lparr>f_attributes := [''@id'', ''@default'']\<rparr>,
      plain_field ''name'' ''String'' False False]\<rparr>"

text \<open>
  The sample model where every model carries \<open>@@openapi.meta({ security: false })\<close>.
\<close>

definition sample_falsy :: Generator where
  "sample_falsy = sample\<lparr>getModelResourceMeta :=
     (\<lambda>n. Some \<lparr>tagDescription = None, security = Some (JBool False)\<rparr>)\<rparr>"

text \<open>
  The sample model where \<open>Post\<close> is marked \<open>@@ignore\<close> and the field \<open>posts\<close> of \<open>User\<close>
  is marked \<open>@ignore\<close>: both declarations are still loaded and \<open>posts\<close> still refers to
  \<open>Post\<close>, but neither the DMMF, nor the included models, nor \<open>getDataModels\<close> hold \<open>Post\<close>.
\<close>

definition ignored_user :: DataModel where
  "ignored_user = \<lparr>dm_name = ''User'',
     dm_fields = [user_id, user_posts\<lparr>f_attributes := [''@ignore'']\<rparr>]\<rparr>"

definition sample_ignored :: Generator where
  "sample_ignored = sample\<lparr>declarations := [DataModelD ignored_user, DataModelD sample_post],
     dmmf_models := [''User''], includedModels := [ignored_user], dataModels := [ignored_user]\<rparr>"

section \<open>Basic facts\<close>

lemma bindE_Inr [simp]: "bindE (Inr x) f = f x"
  by (simp add: bindE_def)

lemma bindE_Inl [simp]: "bindE (Inl e) f = Inl e"
  by (simp add: bindE_def)

lemma bindE_eq_Inr: "bindE m f = Inr y \<longleftrightarrow> (\<exists>x. m = Inr x \<and> f x = Inr y)"
  by (cases m) auto

lemma operation_security_effective:
  "operation_security resourceMeta policy = effective_security resourceMeta policy"
  by (auto simp: operation_security_def effective_security_def override_counts_def nullish_def)

subsection \<open>The paths of one model do not collide\<close>

lemma related_ne_relationship:
  "CHR ''/'' \<notin> set (f_name f) \<Longrightarrow> relatedDataPath g mn f \<noteq> relationshipPath g mn f'"
  by (auto simp: relatedDataPath_def relationshipPath_def)

lemma related_inj: "relatedDataPath g mn f = relatedDataPath g mn f' \<longleftrightarrow> f_name f = f_name f'"
  by (auto simp: relatedDataPath_def)

lemma relationship_inj:
  "relationshipPath g mn f = relationshipPath g mn f' \<longleftrightarrow> f_name f = f_name f'"
  by (auto simp: relationshipPath_def)

lemma related_self_ne: "relatedDataPath g mn f \<noteq> relationshipPath g mn f"
  by (auto simp: relatedDataPath_def relationshipPath_def dest: arg_cong [where f = length])

lemma base_ne:
  "base_path g mn \<noteq> relatedDataPath g mn f"
  "base_path g mn \<noteq> relationshipPath g mn f"
  "base_path g mn @ ''/{id}'' \<noteq> relatedDataPath g mn f"
  "base_path g mn @ ''/{id}'' \<noteq> relationshipPath g mn f"
  "base_path g mn \<noteq> base_path g mn @ ''/{id}''"
  by (auto simp: relatedDataPath_def relationshipPath_def dest: arg_cong [where f = length])

subsection \<open>What the loop over the relationship fields stores\<close>

lemma makeRelatedFetch_ok:
  assumes "generateFilterParameters zmodel = Inr filters"
  shows "\<exists>rf. makeRelatedFetch g zmodel f rel meta = Inr rf
     \<and> op_security rf = operation_security meta (pol_read (analyzePolicies g rel))
     \<and> operationId rf = ''fetch-'' @ dm_name zmodel @ ''-related-'' @ f_name f
     \<and> parameters rf = (if ft_array (f_type f)
          then [parameter ''id'', parameter ''include'', parameter ''sort'', parameter ''page-offset'',
                parameter ''page-limit''] @ filters
          else [parameter ''id'', parameter ''include''])"
  using assms by (simp add: makeRelatedFetch_def Let_def)

lemma makeRelationshipFetch_ok:
  assumes "generateFilterParameters zmodel = Inr filters"
  shows "\<exists>sf. makeRelationshipFetch zmodel f pol meta = Inr sf
     \<and> op_security sf = operation_security meta (pol_read pol)
     \<and> operationId sf = ''fetch-'' @ dm_name zmodel @ ''-relationship-'' @ f_name f"
  using assms by (simp add: makeRelationshipFetch_def Let_def)

lemma container_None: "map_of r p = None \<Longrightarrow> container r p = empty_item"
  by (simp add: container_def)

lemma relationPaths_step:
  assumes ref: "ft_reference (f_type f) = Some (DataModelRef rel)"
    and rf: "makeRelatedFetch g zmodel f rel meta = Inr rf"
    and sf: "makeRelationshipFetch zmodel f pol meta = Inr sf"
    and fresh: "map_of r (relatedDataPath g mn f) = None" "map_of r (relationshipPath g mn f) = None"
  shows "\<exists>r'. relationPaths g mn n zmodel pol meta f r = Inr r'
      \<and> map_of r' = (map_of r)(relatedDataPath g mn f \<mapsto> empty_item\<lparr>pi_get := Some rf\<rparr>,
                               relationshipPath g mn f \<mapsto> relationship_item zmodel n f pol meta sf)"
proof -
  have ne: "relationshipPath g mn f \<noteq> relatedDataPath g mn f"
    using related_self_ne [of g mn f] by simp
  let ?r1 = "AList.update (relatedDataPath g mn f) (empty_item\<lparr>pi_get := Some rf\<rparr>) r"
  have c2: "container ?r1 (relationshipPath g mn f) = empty_item"
    using fresh ne by (simp add: container_def update_conv')
  show ?thesis
    using ref rf sf c2
    by (simp add: relationPaths_def Let_def container_None [OF fresh(1)] update_conv'
        relationship_item_def empty_item_def)
qed

lemma relationPaths_skip:
  assumes "\<not> isRelationshipField f"
  shows "relationPaths g mn n zmodel pol meta f r = Inr r"
  using assms
  by (auto simp: relationPaths_def isRelationshipField_def split: option.splits decl_ref.splits)

lemma relationLoop_map:
  assumes fp: "generateFilterParameters zmodel = Inr filters"
  shows "field_names_ok fs \<Longrightarrow>
     (\<forall>f \<in> set fs. map_of r (relatedDataPath g mn f) = None
                   \<and> map_of r (relationshipPath g mn f) = None) \<Longrightarrow>
     \<exists>r'. relationLoop g mn n zmodel pol meta fs r = Inr r'
        \<and> (\<forall>f \<in> set fs. \<forall>rel. ft_reference (f_type f) = Some (DataModelRef rel) \<longrightarrow>
              (\<exists>rf sf. makeRelatedFetch g zmodel f rel meta = Inr rf
                 \<and> makeRelationshipFetch zmodel f pol meta = Inr sf
                 \<and> map_of r' (relatedDataPath g mn f) = Some (empty_item\<lparr>pi_get := Some rf\<rparr>)
                 \<and> map_of r' (relationshipPath g mn f)
                     = Some (relationship_item zmodel n f pol meta sf)))
        \<and> (\<forall>p. (\<forall>f \<in> set fs. isRelationshipField f \<longrightarrow>
                     p \<noteq> relatedDataPath g mn f \<and> p \<noteq> relationshipPath g mn f)
              \<longrightarrow> map_of r' p = map_of r p)"
proof (induction fs arbitrary: r)
  case Nil
  then show ?case by simp
next
  case (Cons f fs)
  have ok: "field_names_ok fs"
    using Cons.prems(1) by (simp add: field_names_ok_def)
  have noslash: "CHR ''/'' \<notin> set (f_name f)" "\<forall>f' \<in> set fs. CHR ''/'' \<notin> set (f_name f')"
    using Cons.prems(1) by (auto simp: field_names_ok_def list_all_iff)
  have diff: "\<forall>f' \<in> set fs. f_name f' \<noteq> f_name f"
    using Cons.prems(1) by (auto simp: field_names_ok_def image_iff)
  have other: "\<forall>f' \<in> set fs.
      relatedDataPath g mn f' \<noteq> relatedDataPath g mn f
    \<and> relatedDataPath g mn f' \<noteq> relationshipPath g mn f
    \<and> relationshipPath g mn f' \<noteq> relatedDataPath g mn f
    \<and> relationshipPath g mn f' \<noteq> relationshipPath g mn f"
    using diff noslash related_ne_relationship [of _ g mn]
    by (metis related_inj relationship_inj)
  show ?case
  proof (cases "isRelationshipField f")
    case False
    then have step: "relationPaths g mn n zmodel pol meta f r = Inr r"
      by (rule relationPaths_skip)
    have noref: "\<And>rel. ft_reference (f_type f) \<noteq> Some (DataModelRef rel)"
      using False by (auto simp: isRelationshipField_def)
    from Cons.IH [OF ok, of r] Cons.prems(2)
    obtain r' where r': "relationLoop g mn n zmodel pol meta fs r = Inr r'"
      and each: "\<forall>f \<in> set fs. \<forall>rel. ft_reference (f_type f) = Some (DataModelRef rel) \<longrightarrow>
              (\<exists>rf sf. makeRelatedFetch g zmodel f rel meta = Inr rf
                 \<and> makeRelationshipFetch zmodel f pol meta = Inr sf
                 \<and> map_of r' (relatedDataPath g mn f) = Some (empty_item\<lparr>pi_get := Some rf\<rparr>)
                 \<and> map_of r' (relationshipPath g mn f)
                     = Some (relationship_item zmodel n f pol meta sf))"
      and frame: "\<forall>p. (\<forall>f \<in> set fs. isRelationshipField f \<longrightarrow>
                     p \<noteq> relatedDataPath g mn f \<and> p \<noteq> relationshipPath g mn f)
              \<longrightarrow> map_of r' p = map_of r p"
      by auto
    show ?thesis
      using r' each frame step noref False by auto
  next
    case True
    then obtain rel where ref: "ft_reference (f_type f) = Some (DataModelRef rel)"
      by (auto simp: isRelationshipField_def elim: isDataModelRef.elims)
    obtain rf where rf: "makeRelatedFetch g zmodel f rel meta = Inr rf"
      using makeRelatedFetch_ok [OF fp] by blast
    obtain sf where sf: "makeRelationshipFetch zmodel f pol meta = Inr sf"
      using makeRelationshipFetch_ok [OF fp] by blast
    have fresh: "map_of r (relatedDataPath g mn f) = None" "map_of r (relationshipPath g mn f) = None"
      using Cons.prems(2) by auto
    from relationPaths_step [OF ref rf sf fresh, of n]
    obtain r1 where r1: "relationPaths g mn n zmodel pol meta f r = Inr r1"
      and m1: "map_of r1 = (map_of r)(relatedDataPath g mn f \<mapsto> empty_item\<lparr>pi_get := Some rf\<rparr>,
                               relationshipPath g mn f \<mapsto> relationship_item zmodel n f pol meta sf)"
      by blast
    have fresh1: "\<forall>f' \<in> set fs. map_of r1 (relatedDataPath g mn f') = None
                   \<and> map_of r1 (relationshipPath g mn f') = None"
      using Cons.prems(2) other by (simp add: m1)
    from Cons.IH [OF ok fresh1]
    obtain r' where r': "relationLoop g mn n zmodel pol meta fs r1 = Inr r'"
      and each: "\<forall>f \<in> set fs. \<forall>rel. ft_reference (f_type f) = Some (DataModelRef rel) \<longrightarrow>
              (\<exists>rf sf. makeRelatedFetch g zmodel f rel meta = Inr rf
                 \<and> makeRelationshipFetch zmodel f pol meta = Inr sf
                 \<and> map_of r' (relatedDataPath g mn f) = Some (empty_item\<lparr>pi_get := Some rf\<rparr>)
                 \<and> map_of r' (relationshipPath g mn f)
                     = Some (relationship_item zmodel n f pol meta sf))"
      and frame: "\<forall>p. (\<forall>f \<in> set fs. isRelationshipField f \<longrightarrow>
                     p \<noteq> relatedDataPath g mn f \<and> p \<noteq> relationshipPath g mn f)
              \<longrightarrow> map_of r' p = map_of r1 p"
      by auto
    have loop: "relationLoop g mn n zmodel pol meta (f # fs) r = Inr r'"
      using r1 r' by simp
    have other': "\<forall>f' \<in> set fs.
        relatedDataPath g mn f \<noteq> relatedDataPath g mn f'
      \<and> relatedDataPath g mn f \<noteq> relationshipPath g mn f'
      \<and> relationshipPath g mn f \<noteq> relatedDataPath g mn f'
      \<and> relationshipPath g mn f \<noteq> relationshipPath g mn f'"
      using other by metis
    have "map_of r' (relatedDataPath g mn f) = map_of r1 (relatedDataPath g mn f)"
      using other' by (intro frame [rule_format]) simp
    moreover have "map_of r' (relationshipPath g mn f) = map_of r1 (relationshipPath g mn f)"
      using other' by (intro frame [rule_format]) simp
    ultimately have here: "map_of r' (relatedDataPath g mn f) = Some (empty_item\<lparr>pi_get := Some rf\<rparr>)"
      "map_of r' (relationshipPath g mn f) = Some (relationship_item zmodel n f pol meta sf)"
      using related_self_ne [of g mn f] by (auto simp: m1)
    have frame': "\<forall>p. (\<forall>f' \<in> set (f # fs). isRelationshipField f' \<longrightarrow>
                     p \<noteq> relatedDataPath g mn f' \<and> p \<noteq> relationshipPath g mn f')
              \<longrightarrow> map_of r' p = map_of r p"
      using frame True by (auto simp: m1)
    show ?thesis
      using loop each here frame' ref rf sf by auto
  qed
qed

subsection \<open>The paths of one model\<close>

lemma generatePathsForModel_filters:
  assumes "generatePathsForModel g n zmodel = Inr result"
  shows "\<exists>filters. generateFilterParameters zmodel = Inr filters"
  using assms
  by (auto simp: generatePathsForModel_def Let_def makeResourceList_def bindE_eq_Inr)

lemma generatePathsForModel_map:
  assumes res: "generatePathsForModel g n zmodel = Inr result"
    and ok: "field_names_ok (dm_fields zmodel)"
  defines "pol \<equiv> analyzePolicies g (dm_name zmodel)"
    and "meta \<equiv> getModelResourceMeta g (dm_name zmodel)"
    and "mn \<equiv> mapModelName g n"
  shows "(\<exists>l. makeResourceList zmodel pol meta = Inr l
           \<and> map_of result (base_path g mn)
              = Some \<lparr>pi_get = Some l, pi_post = Some (makeResourceCreate zmodel pol meta),
                      pi_put = None, pi_patch = None, pi_delete = None\<rparr>)
       \<and> map_of result (base_path g mn @ ''/{id}'')
           = Some \<lparr>pi_get = Some (makeResourceFetch zmodel pol meta), pi_post = None,
                   pi_put = Some (makeResourceUpdate zmodel pol (''update-'' @ mn @ ''-put'') meta),
                   pi_patch = Some (makeResourceUpdate zmodel pol (''update-'' @ mn @ ''-patch'') meta),
                   pi_delete = Some (makeResourceDelete zmodel pol meta)\<rparr>
       \<and> (\<forall>f \<in> set (dm_fields zmodel). \<forall>rel. ft_reference (f_type f) = Some (DataModelRef rel) \<longrightarrow>
              (\<exists>rf sf. makeRelatedFetch g zmodel f rel meta = Inr rf
                 \<and> makeRelationshipFetch zmodel f pol meta = Inr sf
                 \<and> map_of result (relatedDataPath g mn f) = Some (empty_item\<lparr>pi_get := Some rf\<rparr>)
                 \<and> map_of result (relationshipPath g mn f)
                     = Some (relationship_item zmodel n f pol meta sf)))
       \<and> (\<forall>p. p \<noteq> base_path g mn \<and> p \<noteq> base_path g mn @ ''/{id}''
               \<and> (\<forall>f \<in> set (dm_fields zmodel). isRelationshipField f \<longrightarrow>
                     p \<noteq> relatedDataPath g mn f \<and> p \<noteq> relationshipPath g mn f)
              \<longrightarrow> map_of result p = None)"
proof -
  obtain filters where fp: "generateFilterParameters zmodel = Inr filters"
    using generatePathsForModel_filters [OF res] by blast
  obtain l where l: "makeResourceList zmodel pol meta = Inr l"
    using fp by (simp add: makeResourceList_def)
  let ?i1 = "\<lparr>pi_get = Some l, pi_post = Some (makeResourceCreate zmodel pol meta),
                      pi_put = None, pi_patch = None, pi_delete = None\<rparr>"
  let ?i2 = "\<lparr>pi_get = Some (makeResourceFetch zmodel pol meta), pi_post = None,
                   pi_put = Some (makeResourceUpdate zmodel pol (''update-'' @ mn @ ''-put'') meta),
                   pi_patch = Some (makeResourceUpdate zmodel pol (''update-'' @ mn @ ''-patch'') meta),
                   pi_delete = Some (makeResourceDelete zmodel pol meta)\<rparr>"
  let ?r0 = "AList.update (base_path g mn @ ''/{id}'') ?i2 (AList.update (base_path g mn) ?i1 [])"
  have loop: "relationLoop g mn n zmodel pol meta (dm_fields zmodel) ?r0 = Inr result"
    using res l by (simp add: generatePathsForModel_def Let_def pol_def meta_def mn_def)
  have m0: "map_of ?r0 = [base_path g mn \<mapsto> ?i1, base_path g mn @ ''/{id}'' \<mapsto> ?i2]"
    by (simp only: update_conv' map_of.simps)
  have fresh: "\<forall>f \<in> set (dm_fields zmodel). map_of ?r0 (relatedDataPath g mn f) = None
                   \<and> map_of ?r0 (relationshipPath g mn f) = None"
    unfolding m0 by (simp add: base_ne [symmetric])
  from relationLoop_map [OF fp ok fresh, of n pol meta] loop
  have each: "\<forall>f \<in> set (dm_fields zmodel). \<forall>rel. ft_reference (f_type f) = Some (DataModelRef rel) \<longrightarrow>
              (\<exists>rf sf. makeRelatedFetch g zmodel f rel meta = Inr rf
                 \<and> makeRelationshipFetch zmodel f pol meta = Inr sf
                 \<and> map_of result (relatedDataPath g mn f) = Some (empty_item\<lparr>pi_get := Some rf\<rparr>)
                 \<and> map_of result (relationshipPath g mn f)
                     = Some (relationship_item zmodel n f pol meta sf))"
    and frame: "\<forall>p. (\<forall>f \<in> set (dm_fields zmodel). isRelationshipField f \<longrightarrow>
                     p \<noteq> relatedDataPath g mn f \<and> p \<noteq> relationshipPath g mn f)
              \<longrightarrow> map_of result p = map_of ?r0 p"
    by auto
  have b1: "map_of result (base_path g mn) = map_of ?r0 (base_path g mn)"
    by (intro frame [rule_format]) (simp add: base_ne)
  have b2: "map_of result (base_path g mn @ ''/{id}'') = map_of ?r0 (base_path g mn @ ''/{id}'')"
    by (intro frame [rule_format]) (simp add: base_ne)
  have v1: "map_of ?r0 (base_path g mn) = Some ?i1"
    unfolding m0 using base_ne(5) [of g mn] by simp
  have v2: "map_of ?r0 (base_path g mn @ ''/{id}'') = Some ?i2"
    unfolding m0 by simp
  have rest: "\<forall>p. p \<noteq> base_path g mn \<and> p \<noteq> base_path g mn @ ''/{id}''
               \<and> (\<forall>f \<in> set (dm_fields zmodel). isRelationshipField f \<longrightarrow>
                     p \<noteq> relatedDataPath g mn f \<and> p \<noteq> relationshipPath g mn f)
              \<longrightarrow> map_of result p = None"
  proof (intro allI impI)
    fix p
    assume p: "p \<noteq> base_path g mn \<and> p \<noteq> base_path g mn @ ''/{id}''
               \<and> (\<forall>f \<in> set (dm_fields zmodel). isRelationshipField f \<longrightarrow>
                     p \<noteq> relatedDataPath g mn f \<and> p \<noteq> relationshipPath g mn f)"
    then have "map_of result p = map_of ?r0 p"
      using frame by blast
    also have "\<dots> = None"
      unfolding m0 using p by simp
    finally show "map_of result p = None" .
  qed
  show ?thesis
    using l b1 b2 v1 v2 each rest by simp
qed

subsection \<open>Security of the operations\<close>

lemma maker_security:
  "op_security (makeResourceCreate zmodel pol meta) = effective_security meta (pol_create pol)"
  "op_security (makeResourceFetch zmodel pol meta) = effective_security meta (pol_read pol)"
  "op_security (makeResourceUpdate zmodel pol opId meta) = effective_security meta (pol_update pol)"
  "op_security (makeResourceDelete zmodel pol meta) = effective_security meta (pol_delete pol)"
  "op_security (makeRelationshipCreate zmodel f pol meta) = effective_security meta (pol_update pol)"
  "op_security (makeRelationshipUpdate zmodel f pol opId meta) = effective_security meta (pol_update pol)"
  by (simp_all add: makeResourceCreate_def makeResourceFetch_def makeResourceUpdate_def
      makeResourceDelete_def makeRelationshipCreate_def makeRelationshipUpdate_def
      operation_security_effective)

lemma makeResourceList_security:
  "makeResourceList zmodel pol meta = Inr l \<Longrightarrow> op_security l = effective_security meta (pol_read pol)"
  by (auto simp: makeResourceList_def bindE_eq_Inr operation_security_effective)


subsection \<open>The loop over the models\<close>



lemma pathsLoop_unmatched:
  assumes "m \<in> set (map dm_name (includedModels g))"
    and "find_data_model (declarations g) m = None"
  shows "pathsLoop g (m # ms) (r, w) = pathsLoop g ms (r, w @ [warning_for m])"
  using assms by simp

subsection \<open>The sample model generates\<close>

lemma sample_user_paths:
  "generatePathsForModel sample ''User'' sample_user
     = Inr (projr (generatePathsForModel sample ''User'' sample_user))"
  by code_simp

lemma sample_post_paths:
  "generatePathsForModel sample ''Post'' sample_post
     = Inr (projr (generatePathsForModel sample ''Post'' sample_post))"
  by code_simp

lemma sample_names_ok:
  "field_names_ok (dm_fields sample_user)" "field_names_ok (dm_fields sample_post)"
  by code_simp+

lemma sample_members:
  "user_posts \<in> set (dm_fields sample_user)" "post_author \<in> set (dm_fields sample_post)"
  by code_simp+

lemma sample_override_paths:
  "generatePathsForModel sample_override ''User'' sample_user
     = Inr (projr (generatePathsForModel sample_override ''User'' sample_user))"
  by code_simp


lemma sample_falsy_paths:
  "generatePathsForModel sample_falsy ''User'' sample_user
     = Inr (projr (generatePathsForModel sample_falsy ''User'' sample_user))"
  "generatePathsForModel sample_falsy ''Post'' sample_post
     = Inr (projr (generatePathsForModel sample_falsy ''Post'' sample_post))"
  by code_simp+

subsection \<open>Names of the filter parameters\<close>
















subsection \<open>Reading an entity schema\<close>

lemma has_property_JObj:
  "has_property k (JObj [(''type'', t), (''description'', d), (''required'', r), (''properties'', JObj props)])
     = (k \<in> fst ` set props)"
  by (simp add: has_property_def)

lemma requires_JObj:
  "requires k (JObj [(''type'', t), (''description'', d), (''required'', JArr names), (''properties'', p)])
     = (JStr k \<in> set names)"
  by (auto simp: requires_def)

lemma fst_set_update: "fst ` set (AList.update k v al) = insert k (fst ` set al)"
  using dom_update [of k v al] by (simp add: dom_map_of_conv_image_fst)

lemma single_id_without_default_iff:
  "single_id_without_default model
     = (length (filter isIdField (dm_fields model)) = 1
        \<and> \<not> hasAttribute (hd (filter isIdField (dm_fields model))) ''@default'')"
  by (auto simp: single_id_without_default_def split: list.splits)


subsection \<open>The work list computes the reachable components\<close>

lemma edge_source_key: "(a, b) \<in> edges S \<Longrightarrow> a \<in> fst ` set S"
  by (force simp: edges_def dest: map_of_SomeD)

lemma reach_mono: "set visited \<subseteq> set (reach S todo visited)"
  by (induction S todo visited rule: reach.induct) (auto split: option.splits)

lemma reach_keys: "set (reach S todo visited) \<subseteq> set visited \<union> fst ` set S"
proof (induction S todo visited rule: reach.induct)
  case (1 S visited)
  show ?case by simp
next
  case (2 S n todo visited)
  show ?case
  proof (cases "n \<in> set visited")
    case True
    then show ?thesis using 2(1) by simp
  next
    case False
    show ?thesis
    proof (cases "map_of S n")
      case None
      then show ?thesis using False 2(2) by simp
    next
      case (Some s)
      then have "n \<in> fst ` set S"
        by (force dest: map_of_SomeD)
      then show ?thesis
        using False Some 2(3) [OF False Some] by auto
    qed
  qed
qed

lemma reach_sound: "set (reach S todo visited) \<subseteq> set visited \<union> (edges S)\<^sup>* `` set todo"
proof (induction S todo visited rule: reach.induct)
  case (1 S visited)
  show ?case by simp
next
  case (2 S n todo visited)
  show ?case
  proof (cases "n \<in> set visited")
    case True
    then show ?thesis using 2(1) by auto
  next
    case False
    show ?thesis
    proof (cases "map_of S n")
      case None
      then show ?thesis using False 2(2) by auto
    next
      case (Some s)
      have step: "(edges S)\<^sup>* `` set (collect_refs s) \<subseteq> (edges S)\<^sup>* `` {n}"
      proof
        fix c
        assume "c \<in> (edges S)\<^sup>* `` set (collect_refs s)"
        then obtain b where b: "b \<in> set (collect_refs s)" and bc: "(b, c) \<in> (edges S)\<^sup>*"
          by auto
        have "(n, b) \<in> edges S"
          using Some b by (auto simp: edges_def)
        then show "c \<in> (edges S)\<^sup>* `` {n}"
          using bc by (auto intro: converse_rtrancl_into_rtrancl)
      qed
      have "set (reach S (n # todo) visited) = set (reach S (collect_refs s @ todo) (n # visited))"
        using False Some by simp
      also have "\<dots> \<subseteq> set (n # visited) \<union> (edges S)\<^sup>* `` set (collect_refs s @ todo)"
        using 2(3) [OF False Some] .
      also have "\<dots> \<subseteq> set visited \<union> (edges S)\<^sup>* `` set (n # todo)"
        using step by auto
      finally show ?thesis .
    qed
  qed
qed

lemma reach_closed:
  "expanded S todo visited \<Longrightarrow>
     set todo \<inter> fst ` set S \<subseteq> set (reach S todo visited)
     \<and> expanded S [] (reach S todo visited)"
proof (induction S todo visited rule: reach.induct)
  case (1 S visited)
  then show ?case by simp
next
  case (2 S n todo visited)
  show ?case
  proof (cases "n \<in> set visited")
    case True
    have "expanded S todo visited"
      using "2.prems" True by (auto simp: expanded_def)
    from 2(1) [OF True this] show ?thesis
      using True reach_mono [of visited S todo] by auto
  next
    case False
    show ?thesis
    proof (cases "map_of S n")
      case None
      then have nk: "n \<notin> fst ` set S"
        by (simp add: map_of_eq_None_iff)
      have "expanded S todo visited"
        using "2.prems" nk by (fastforce simp: expanded_def)
      from 2(2) [OF False None this] show ?thesis
        using False None nk by auto
    next
      case (Some s)
      have "expanded S (collect_refs s @ todo) (n # visited)"
        unfolding expanded_def
      proof (intro ballI allI impI)
        fix a b
        assume a: "a \<in> set (n # visited)" and e: "(a, b) \<in> edges S" and k: "b \<in> fst ` set S"
        show "b \<in> set (n # visited) \<union> set (collect_refs s @ todo)"
        proof (cases "a = n")
          case True
          then have "b \<in> set (collect_refs s)"
            using e Some by (auto simp: edges_def)
          then show ?thesis by simp
        next
          case False
          then have "a \<in> set visited" using a by simp
          then have "b \<in> set visited \<union> set (n # todo)"
            using "2.prems" e k by (auto simp: expanded_def)
          then show ?thesis by auto
        qed
      qed
      from 2(3) [OF False Some this]
      have sub: "set (collect_refs s @ todo) \<inter> fst ` set S
                   \<subseteq> set (reach S (collect_refs s @ todo) (n # visited))"
        and ex: "expanded S [] (reach S (collect_refs s @ todo) (n # visited))"
        by auto
      have n: "n \<in> set (reach S (collect_refs s @ todo) (n # visited))"
        using reach_mono [of "n # visited" S "collect_refs s @ todo"] by auto
      show ?thesis
        using False Some sub ex n by auto
    qed
  qed
qed

lemma reach_reachable:
  "set (reach S roots []) = reachable S roots \<inter> fst ` set S"
proof
  show "set (reach S roots []) \<subseteq> reachable S roots \<inter> fst ` set S"
    using reach_sound [of S roots "[]"] reach_keys [of S roots "[]"]
    by (auto simp: reachable_def)
next
  have init: "expanded S roots []"
    by (simp add: expanded_def)
  from reach_closed [OF init]
  have roots: "set roots \<inter> fst ` set S \<subseteq> set (reach S roots [])"
    and closed: "expanded S [] (reach S roots [])"
    by auto
  have "k \<in> fst ` set S \<longrightarrow> k \<in> set (reach S roots [])"
    if "(r, k) \<in> (edges S)\<^sup>*" and "r \<in> set roots" for r k
    using that
  proof (induction rule: rtrancl_induct)
    case base
    then show ?case using roots by auto
  next
    case (step a k)
    have "a \<in> fst ` set S"
      using step.hyps(2) by (rule edge_source_key)
    then have "a \<in> set (reach S roots [])"
      using step.IH step.prems by simp
    then show ?case
      using closed step.hyps(2) by (auto simp: expanded_def)
  qed
  then show "reachable S roots \<inter> fst ` set S \<subseteq> set (reach S roots [])"
    by (auto simp: reachable_def)
qed

subsection \<open>The pruned component set\<close>

lemma map_of_filter_key:
  "map_of (filter (\<lambda>(k, v). P k) S) k = (if P k then map_of S k else None)"
  by (induction S) auto

lemma keys_prune:
  "fst ` set (pruneComponents ps S) = reachable S (path_refs ps) \<inter> fst ` set S"
  unfolding pruneComponents_def reach_reachable by force

lemma map_of_prune:
  "map_of (pruneComponents ps S) k
     = (if k \<in> reachable S (path_refs ps) then map_of S k else None)"
proof -
  have "map_of (pruneComponents ps S) k
      = (if k \<in> reachable S (path_refs ps) \<inter> fst ` set S then map_of S k else None)"
    unfolding pruneComponents_def reach_reachable [symmetric] by (rule map_of_filter_key)
  also have "\<dots> = (if k \<in> reachable S (path_refs ps) then map_of S k else None)"
    using map_of_eq_None_iff [of S k] by auto
  finally show ?thesis .
qed

lemma edges_prune:
  "edges (pruneComponents ps S) = {(a, b) \<in> edges S. a \<in> reachable S (path_refs ps)}"
  by (auto simp: edges_def map_of_prune split: if_splits)

lemma reachable_prune:
  "reachable (pruneComponents ps S) (path_refs ps) = reachable S (path_refs ps)"
proof
  have "edges (pruneComponents ps S) \<subseteq> edges S"
    by (auto simp: edges_prune)
  then have "(edges (pruneComponents ps S))\<^sup>* \<subseteq> (edges S)\<^sup>*"
    by (rule rtrancl_mono)
  then show "reachable (pruneComponents ps S) (path_refs ps) \<subseteq> reachable S (path_refs ps)"
    by (auto simp: reachable_def)
next
  have "(r, k) \<in> (edges (pruneComponents ps S))\<^sup>*"
    if "(r, k) \<in> (edges S)\<^sup>*" and "r \<in> set (path_refs ps)" for r k
    using that
  proof (induction rule: rtrancl_induct)
    case base
    show ?case by simp
  next
    case (step a k)
    have "a \<in> reachable S (path_refs ps)"
      using step.hyps(1) step.prems by (auto simp: reachable_def)
    then have "(a, k) \<in> edges (pruneComponents ps S)"
      using step.hyps(2) by (simp add: edges_prune)
    then show ?case
      using step.IH [OF step.prems] by (rule rtrancl_into_rtrancl [rotated])
  qed
  then show "reachable S (path_refs ps) \<subseteq> reachable (pruneComponents ps S) (path_refs ps)"
    by (auto simp: reachable_def)
qed

lemma prune_no_orphans:
  assumes "k \<in> fst ` set (pruneComponents ps S)"
  shows "k \<in> reachable (pruneComponents ps S) (path_refs ps)"
  using assms unfolding reachable_prune keys_prune by simp

lemma prune_idempotent:
  "pruneComponents ps (pruneComponents ps S) = pruneComponents ps S"
proof -
  have "\<forall>x \<in> set (pruneComponents ps S).
      (case x of (k, v) \<Rightarrow> k \<in> set (reach (pruneComponents ps S) (path_refs ps) []))"
  proof
    fix x
    assume x: "x \<in> set (pruneComponents ps S)"
    then have "fst x \<in> fst ` set (pruneComponents ps S)"
      by (rule imageI)
    then have "fst x \<in> set (reach (pruneComponents ps S) (path_refs ps) [])"
      using prune_no_orphans [of "fst x" ps S] by (simp add: reach_reachable)
    then show "case x of (k, v) \<Rightarrow> k \<in> set (reach (pruneComponents ps S) (path_refs ps) [])"
      by (cases x) simp
  qed
  then show ?thesis
    unfolding pruneComponents_def [of ps "pruneComponents ps S"] by (simp add: filter_id_conv)
qed

lemma reachable_closed:
  assumes roots: "set roots \<subseteq> K"
    and closed: "\<forall>(k, s) \<in> set S. set (collect_refs s) \<subseteq> K"
  shows "reachable S roots \<subseteq> K"
proof -
  have "k \<in> K" if "(r, k) \<in> (edges S)\<^sup>*" and "r \<in> set roots" for r k
    using that
  proof (induction rule: rtrancl_induct)
    case base
    then show ?case using roots by auto
  next
    case (step a k)
    from step.hyps(2) obtain s where "map_of S a = Some s" and k: "k \<in> set (collect_refs s)"
      by (auto simp: edges_def)
    then have "(a, s) \<in> set S"
      by (auto dest: map_of_SomeD)
    then show ?case
      using closed k by auto
  qed
  then show ?thesis
    by (auto simp: reachable_def)
qed

lemma prune_keeps_referenced:
  assumes roots: "set (path_refs ps) \<subseteq> fst ` set S"
    and closed: "\<forall>(k, s) \<in> set S. set (collect_refs s) \<subseteq> fst ` set S"
  shows "reachable (pruneComponents ps S) (path_refs ps) \<subseteq> fst ` set (pruneComponents ps S)"
  using reachable_closed [OF roots closed] unfolding reachable_prune keys_prune by simp

subsection \<open>References of the generated schemas\<close>

lemma collect_refs_ref [simp]: "collect_refs (ref n) = [n]"
  by (simp add: ref_def schema_ref_name_def schema_prefix_def)

lemma collect_refs_members_append [simp]:
  "collect_refs_members (xs @ ys) = collect_refs_members xs @ collect_refs_members ys"
  by (induction xs) auto

lemma collect_refs_list_append [simp]:
  "collect_refs_list (xs @ ys) = collect_refs_list xs @ collect_refs_list ys"
  by (induction xs) auto

lemma collect_refs_list_strings [simp]: "collect_refs_list (map JStr xs) = []"
  by (induction xs) auto

lemma collect_refs_members_update:
  "set (collect_refs_members (AList.update k v kvs))
     \<subseteq> set (collect_refs_members kvs) \<union> set (collect_refs_members [(k, v)])"
  by (induction kvs) auto

lemma collect_refs_spread: "set (collect_refs_members (spread s)) \<subseteq> set (collect_refs s)"
  by (cases s) simp_all

lemma collect_refs_array [simp]: "collect_refs (array_schema s) = collect_refs s"
  by (simp add: array_schema_def)

lemma collect_refs_wrapArray [simp]: "collect_refs (wrapArray s b) = collect_refs s"
  by (simp add: wrapArray_def)

lemma collect_refs_allOf [simp]: "collect_refs (allOf ss) = collect_refs_list ss"
  by (simp add: allOf_def)

lemma collect_refs_oneOf [simp]: "collect_refs (oneOf ss) = collect_refs_list ss"
  by (simp add: oneOf_def)

lemma collect_refs_wrapNullable:
  "set (collect_refs (wrapNullable v s b)) \<subseteq> set (collect_refs s)"
proof -
  have "set (collect_refs_members (AList.update ''nullable'' (JBool True) (spread s)))
      \<subseteq> set (collect_refs s)"
    using collect_refs_members_update [of "''nullable''" "JBool True" "spread s"]
      collect_refs_spread [of s] by auto
  then show ?thesis
    by (auto simp: wrapNullable_def)
qed

lemma collect_refs_typed [simp]: "collect_refs_members (typed t # kvs) = collect_refs_members kvs"
  by (simp add: typed_def)

lemma collect_refs_described [simp]:
  "collect_refs_members (described d # kvs) = collect_refs_members kvs"
  by (simp add: described_def)

lemma collect_refs_string_with [simp]: "collect_refs (string_with d) = []"
  by (simp add: string_with_def)

lemma fieldType_refs:
  assumes "fieldTypeToOpenAPISchema t = Inr s"
  shows "set (collect_refs s) \<subseteq> type_refs t"
  using assms
  by (auto simp: fieldTypeToOpenAPISchema_def type_refs_def split: if_splits option.splits)

lemma generateField_refs:
  assumes "generateField g t = Inr s"
  shows "set (collect_refs s) \<subseteq> type_refs t"
  using assms collect_refs_wrapNullable fieldType_refs
  by (fastforce simp: generateField_def bindE_eq_Inr)

lemma shared_keys: "map fst (generateSharedComponents g) = shared_names"
  by (simp add: generateSharedComponents_def shared_names_def)

lemma shared_refs:
  "\<forall>(k, s) \<in> set (generateSharedComponents g). set (collect_refs s) \<subseteq> set shared_names"
proof (cases "newNullable g")
  case True
  then show ?thesis
    by (simp add: generateSharedComponents_def shared_names_def wrapNullable_def
        string_with_def typed_def described_def ref_def allOf_def oneOf_def array_schema_def
        schema_ref_name_def schema_prefix_def)
next
  case False
  then show ?thesis
    by (simp add: generateSharedComponents_def shared_names_def wrapNullable_def
        string_with_def typed_def described_def ref_def allOf_def oneOf_def array_schema_def
        schema_ref_name_def schema_prefix_def)
qed

lemma set_update_subset: "set (AList.update k v al) \<subseteq> insert (k, v) (set al)"
  by (induction al) auto

lemma within_update:
  "within C S \<Longrightarrow> set (collect_refs v) \<subseteq> C \<Longrightarrow> within C (AList.update k v S)"
  using set_update_subset [of k v S] by (fastforce simp: within_def)

lemma members_update_bound:
  "set (collect_refs_members kvs) \<subseteq> C \<Longrightarrow> set (collect_refs v) \<subseteq> C \<Longrightarrow>
     ref_target v = [] \<Longrightarrow>
     set (collect_refs_members (AList.update k v kvs)) \<subseteq> C"
  using collect_refs_members_update [of k v kvs] by (cases "k = ''$ref''") auto

lemma ref_target_ref [simp]: "ref_target (ref n) = []"
  by (simp add: ref_def)

lemma ref_target_wrapNullable [simp]: "ref_target s = [] \<Longrightarrow> ref_target (wrapNullable v s b) = []"
  by (simp add: wrapNullable_def oneOf_def)

lemma ref_target_wrapArray [simp]: "ref_target s = [] \<Longrightarrow> ref_target (wrapArray s b) = []"
  by (simp add: wrapArray_def array_schema_def)

lemma ref_target_fieldType:
  "fieldTypeToOpenAPISchema t = Inr s \<Longrightarrow> ref_target s = []"
  by (auto simp: fieldTypeToOpenAPISchema_def oneOf_def split: if_splits option.splits)

lemma ref_target_generateField: "generateField g t = Inr s \<Longrightarrow> ref_target s = []"
  by (auto simp: generateField_def bindE_eq_Inr dest: ref_target_fieldType)

lemma relationship_shapes_bound: "relationship_shapes \<subseteq> entity_bound fs"
  by (simp add: entity_bound_def)

lemma type_refs_bound: "f \<in> set fs \<Longrightarrow> type_refs (f_type f) \<subseteq> entity_bound fs"
  by (auto simp: entity_bound_def)

lemma entityField_refs:
  assumes "entityField g mode f (a, r, q) = Inr (a', r', q')"
    and "set (collect_refs_members a) \<subseteq> C" and "set (collect_refs_members r) \<subseteq> C"
    and "relationship_shapes \<subseteq> C" and "type_refs (f_type f) \<subseteq> C"
  shows "set (collect_refs_members a') \<subseteq> C \<and> set (collect_refs_members r') \<subseteq> C"
proof -
  have rel: "set (collect_refs_members (AList.update (f_name f)
                (wrapNullable (newNullable g) (ref n) (ft_optional (f_type f))) r)) \<subseteq> C"
    if "n \<in> relationship_shapes" for n
  proof (rule members_update_bound [OF assms(3)])
    show "set (collect_refs (wrapNullable (newNullable g) (ref n) (ft_optional (f_type f)))) \<subseteq> C"
      using collect_refs_wrapNullable [of "newNullable g" "ref n" "ft_optional (f_type f)"]
        that assms(4) by auto
  qed simp
  have attr: "set (collect_refs_members (AList.update (f_name f) s a)) \<subseteq> C"
    if "generateField g (f_type f) = Inr s" for s
    using members_update_bound [OF assms(2) _ ref_target_generateField [OF that]]
      generateField_refs [OF that] assms(5) by auto
  show ?thesis
    using assms(1,2,3) rel attr
    by (auto simp: entityField_def Let_def bindE_eq_Inr relationship_shapes_def
        split: if_splits)
qed

lemma entityLoop_refs:
  assumes "entityLoop g mode fs st = Inr st'"
    and "set (collect_refs_members (fst st)) \<subseteq> C" and "set (collect_refs_members (fst (snd st))) \<subseteq> C"
    and "relationship_shapes \<subseteq> C" and "\<forall>f \<in> set fs. type_refs (f_type f) \<subseteq> C"
  shows "set (collect_refs_members (fst st')) \<subseteq> C \<and> set (collect_refs_members (fst (snd st'))) \<subseteq> C"
  using assms
proof (induction fs arbitrary: st)
  case Nil
  then show ?case by simp
next
  case (Cons f fs)
  from Cons.prems(1) obtain st1 where s1: "entityField g mode f st = Inr st1"
    and rest: "entityLoop g mode fs st1 = Inr st'"
    by (auto simp: bindE_eq_Inr)
  obtain a r q where st: "st = (a, r, q)" by (cases st)
  obtain a1 r1 q1 where st1: "st1 = (a1, r1, q1)" by (cases st1)
  have "set (collect_refs_members a1) \<subseteq> C \<and> set (collect_refs_members r1) \<subseteq> C"
    using entityField_refs [of g mode f a r q a1 r1 q1 C] s1 Cons.prems st st1 by simp
  then show ?case
    using Cons.IH [OF rest] Cons.prems(4,5) st1 by simp
qed

lemma ref_target_object: "ref_target (JObj kvs) = []" "ref_target (JArr xs) = []"
  by simp_all

lemma generateModelEntity_refs:
  assumes "generateModelEntity g model mode = Inr schema"
  shows "set (collect_refs schema) \<subseteq> entity_bound (dm_fields model)"
proof -
  let ?C = "entity_bound (dm_fields model)"
  let ?ids = "filter isIdField (dm_fields model)"
  let ?fs = "if length ?ids > 1 then dm_fields model
             else filter (\<lambda>f. \<not> isIdField f) (dm_fields model)"
  from assms obtain st where loop: "entityLoop g mode ?fs ([], [], []) = Inr st"
    by (auto simp: generateModelEntity_def Let_def bindE_eq_Inr)
  obtain a r q where st: "st = (a, r, q)" by (cases st)
  have sub: "\<forall>f \<in> set ?fs. type_refs (f_type f) \<subseteq> ?C"
    by (auto intro: type_refs_bound [THEN subsetD])
  have ar: "set (collect_refs_members a) \<subseteq> ?C" "set (collect_refs_members r) \<subseteq> ?C"
    using entityLoop_refs [OF loop _ _ relationship_shapes_bound sub] st by simp_all
  from assms loop st obtain idSchema where
    idS: "(if length ?ids = 1 then fieldTypeToOpenAPISchema (f_type (hd ?ids))
           else Inr (JObj [(''type'', JStr ''string'')])) = Inr idSchema"
    by (auto simp: generateModelEntity_def Let_def bindE_eq_Inr)
  have idb: "set (collect_refs idSchema) \<subseteq> ?C"
  proof (cases "length ?ids = 1")
    case True
    then have "hd ?ids \<in> set ?ids"
      by (cases ?ids) auto
    then have "hd ?ids \<in> set (dm_fields model)"
      by auto
    then show ?thesis
      using idS True fieldType_refs [of "f_type (hd ?ids)" idSchema] type_refs_bound by fastforce
  next
    case False
    then show ?thesis using idS by auto
  qed
  let ?props = "[(''type'', JObj [(''type'', JStr ''string'')]),
             (''attributes'',
                JObj [(''type'', JStr ''object''),
                      (''required'', if length q > 0 then JArr (map JStr q) else JUndefined),
                      (''properties'', JObj a)])]"
  have pb: "set (collect_refs_members ?props) \<subseteq> ?C"
    using ar(1) by simp
  have pib: "set (collect_refs_members ((''id'', idSchema) # ?props)) \<subseteq> ?C"
    using ar(1) idb by simp
  have relb: "set (collect_refs_members (AList.update ''relationships''
                 (JObj [(''type'', JStr ''object''), (''properties'', JObj r)]) ps)) \<subseteq> ?C"
    if "set (collect_refs_members ps) \<subseteq> ?C" for ps
    by (rule members_update_bound [OF that]) (use ar(2) in simp_all)
  have shape: "schema = JObj [(''type'', JStr ''object''),
                    (''description'', JStr (''The '' @ dquote (dm_name model) @ '' model'')),
                    (''required'', JArr (map JStr (snd
                       (if mode = Create
                        then (if length ?ids = 1 \<and> \<not> hasAttribute (hd ?ids) ''@default''
                              then ((''id'', idSchema) # ?props, [''id'', ''type'', ''attributes''])
                              else (?props, [''type'', ''attributes'']))
                        else ((''id'', idSchema) # ?props, [''id'', ''type'', ''attributes'']))))),
                    (''properties'', JObj
                       (let ps = fst
                          (if mode = Create
                           then (if length ?ids = 1 \<and> \<not> hasAttribute (hd ?ids) ''@default''
                                 then ((''id'', idSchema) # ?props, [''id'', ''type'', ''attributes''])
                                 else (?props, [''type'', ''attributes'']))
                           else ((''id'', idSchema) # ?props, [''id'', ''type'', ''attributes'']))
                        in if length r > 0
                           then AList.update ''relationships''
                                  (JObj [(''type'', JStr ''object''), (''properties'', JObj r)]) ps
                           else ps))]"
    using assms loop st idS
    by (simp add: generateModelEntity_def Let_def bindE_eq_Inr split: if_splits)
  show ?thesis
    unfolding shape using pb pib relb [OF pb] relb [OF pib]
    by (simp add: Let_def)
qed

lemma within_Nil [simp]: "within C []"
  by (simp add: within_def)

lemma responseRelationships_refs:
  "set (collect_refs_members acc) \<subseteq> C \<Longrightarrow> relationship_shapes \<subseteq> C \<Longrightarrow>
     set (collect_refs_members (responseRelationships fs acc)) \<subseteq> C"
proof (induction fs arbitrary: acc)
  case Nil
  then show ?case by simp
next
  case (Cons f fs)
  have "set (collect_refs_members (AList.update (f_name f)
           (if ft_array (f_type f) then ref ''_toManyRelationship'' else ref ''_toOneRelationship'')
           acc)) \<subseteq> C"
    by (rule members_update_bound [OF Cons.prems(1)])
       (use Cons.prems(2) in \<open>auto simp: relationship_shapes_def\<close>)
  then show ?case
    using Cons.IH Cons.prems by simp
qed

lemma responseData_refs:
  "set (collect_refs (responseData model (responseRelationships (dm_fields model) [])))
     \<subseteq> model_bound model"
proof -
  have "set (collect_refs_members (responseRelationships (dm_fields model) []))
      \<subseteq> entity_bound (dm_fields model)"
    by (rule responseRelationships_refs) (simp_all add: relationship_shapes_bound)
  then show ?thesis
    by (auto simp: responseData_def model_bound_def)
qed

lemma generateDataModelComponents_entries:
  assumes "generateDataModelComponents g model = Inr entries"
  shows "fst ` set entries = set (model_component_names (dm_name model))"
    and "within (model_bound model) entries"
proof -
  from assms obtain r c u where
    r: "generateModelEntity g model Read = Inr r"
    and c: "generateModelEntity g model Create = Inr c"
    and u: "generateModelEntity g model Update = Inr u"
    by (auto simp: generateDataModelComponents_def bindE_eq_Inr)
  note e = assms [unfolded generateDataModelComponents_def r c u bindE_Inr Let_def, THEN Inr_inject,
      symmetric]
  have rb: "set (collect_refs r) \<subseteq> model_bound model"
    "set (collect_refs c) \<subseteq> model_bound model" "set (collect_refs u) \<subseteq> model_bound model"
    using generateModelEntity_refs [OF r] generateModelEntity_refs [OF c]
      generateModelEntity_refs [OF u] by (auto simp: model_bound_def)
  note d = responseData_refs [of model]
  have fixed: "{''_meta'', ''_jsonapi'', ''_resource'', ''_links'', ''_pagination''} \<subseteq> model_bound model"
    by (simp add: model_bound_def)
  show "fst ` set entries = set (model_component_names (dm_name model))"
    unfolding e by (auto simp: fst_set_update model_component_names_def)
  show "within (model_bound model) entries"
    unfolding e
    by (intro within_update within_Nil) (use rb d fixed in auto)
qed

lemma assign_all_keys: "fst ` set (assign_all S es) = fst ` set S \<union> fst ` set es"
  unfolding assign_all_def
proof (induction es arbitrary: S)
  case Nil
  show ?case by simp
next
  case (Cons e es)
  obtain k v where e: "e = (k, v)" by (cases e)
  have "fst ` set (foldl (\<lambda>acc (k, v). AList.update k v acc) (AList.update k v S) es)
      = fst ` set (AList.update k v S) \<union> fst ` set es"
    by (rule Cons.IH)
  also have "\<dots> = insert k (fst ` set S) \<union> fst ` set es"
    by (simp only: fst_set_update)
  also have "\<dots> = fst ` set S \<union> fst ` set (e # es)"
    by (simp add: e)
  finally show ?case
    by (simp add: e)
qed

lemma assign_all_within: "within C S \<Longrightarrow> within C es \<Longrightarrow> within C (assign_all S es)"
  unfolding assign_all_def
proof (induction es arbitrary: S)
  case Nil
  then show ?case by simp
next
  case (Cons e es)
  obtain k v where e: "e = (k, v)" by (cases e)
  have "within C (AList.update k v S)"
    using Cons.prems e by (intro within_update) (auto simp: within_def)
  moreover have "within C es"
    using Cons.prems(2) by (simp add: within_def)
  ultimately show ?case
    using Cons.IH e by simp
qed

lemma enumLoop_keys: "fst ` set (enumLoop ds S) = fst ` set S \<union> set (enum_names ds)"
  by (induction ds S rule: enumLoop.induct) (auto simp: fst_set_update)

lemma generateEnumComponent_refs: "collect_refs (generateEnumComponent e) = []"
  by (simp add: generateEnumComponent_def)

lemma enumLoop_within: "within C S \<Longrightarrow> within C (enumLoop ds S)"
proof (induction ds S rule: enumLoop.induct)
  case (2 e rest S)
  have "within C (AList.update (en_name e) (generateEnumComponent e) S)"
    using "2.prems" by (intro within_update) (simp_all add: generateEnumComponent_refs)
  then show ?case
    using "2.IH" by simp
qed simp_all

lemma dataModelLoop_keys:
  "dataModelLoop g ms S = Inr S' \<Longrightarrow>
     fst ` set S' = fst ` set S \<union> (\<Union>m \<in> set ms. set (model_component_names (dm_name m)))"
proof (induction ms arbitrary: S)
  case Nil
  then show ?case by simp
next
  case (Cons m ms)
  from Cons.prems obtain es where es: "generateDataModelComponents g m = Inr es"
    and rest: "dataModelLoop g ms (assign_all S es) = Inr S'"
    by (auto simp: bindE_eq_Inr)
  show ?case
    using Cons.IH [OF rest] generateDataModelComponents_entries(1) [OF es]
    by (auto simp: assign_all_keys)
qed

lemma dataModelLoop_within:
  "dataModelLoop g ms S = Inr S' \<Longrightarrow> within C S \<Longrightarrow> \<forall>m \<in> set ms. model_bound m \<subseteq> C \<Longrightarrow>
     within C S'"
proof (induction ms arbitrary: S)
  case Nil
  then show ?case by simp
next
  case (Cons m ms)
  from Cons.prems(1) obtain es where es: "generateDataModelComponents g m = Inr es"
    and rest: "dataModelLoop g ms (assign_all S es) = Inr S'"
    by (auto simp: bindE_eq_Inr)
  have "within C es"
    using generateDataModelComponents_entries(2) [OF es] Cons.prems(3)
    by (fastforce simp: within_def)
  then have "within C (assign_all S es)"
    using Cons.prems(2) by (intro assign_all_within)
  then show ?case
    using Cons.IH [OF rest] Cons.prems(3) by simp
qed

lemma typeDefProperties_refs:
  "typeDefProperties g fs acc = Inr props \<Longrightarrow> set (collect_refs_members acc) \<subseteq> C \<Longrightarrow>
     \<forall>f \<in> set fs. type_refs (tf_type f) \<subseteq> C \<Longrightarrow> set (collect_refs_members props) \<subseteq> C"
proof (induction fs arbitrary: acc)
  case Nil
  then show ?case by simp
next
  case (Cons f fs)
  from Cons.prems(1) obtain s where s: "generateField g (tf_type f) = Inr s"
    and rest: "typeDefProperties g fs (AList.update (tf_name f) s acc) = Inr props"
    by (auto simp: bindE_eq_Inr)
  have "set (collect_refs_members (AList.update (tf_name f) s acc)) \<subseteq> C"
    using members_update_bound [OF Cons.prems(2) _ ref_target_generateField [OF s]]
      generateField_refs [OF s] Cons.prems(3) by auto
  then show ?case
    using Cons.IH [OF rest] Cons.prems(3) by simp
qed

lemma generateTypeDefComponent_refs:
  assumes "generateTypeDefComponent g t = Inr s"
    and "\<forall>f \<in> set (td_fields t). type_refs (tf_type f) \<subseteq> C"
  shows "set (collect_refs s) \<subseteq> C"
  using assms typeDefProperties_refs [of g "td_fields t" "[]" _ C]
  by (auto simp: generateTypeDefComponent_def bindE_eq_Inr)

lemma typeDefLoop_keys:
  "typeDefLoop g ds S = Inr S' \<Longrightarrow> fst ` set S' = fst ` set S \<union> td_name ` set (type_defs ds)"
proof (induction ds arbitrary: S)
  case Nil
  then show ?case by simp
next
  case (Cons d ds)
  show ?case
  proof (cases d)
    case (TypeDefD t)
    with Cons.prems obtain s where
      r: "typeDefLoop g ds (AList.update (td_name t) s S) = Inr S'"
      by (auto simp: bindE_eq_Inr)
    have "fst ` set S' = insert (td_name t) (fst ` set S) \<union> td_name ` set (type_defs ds)"
      using Cons.IH [OF r] by (simp only: fst_set_update)
    then show ?thesis
      using TypeDefD by simp
  qed (use Cons in simp_all)
qed

lemma typeDefLoop_within:
  "typeDefLoop g ds S = Inr S' \<Longrightarrow> within C S \<Longrightarrow>
     \<forall>t \<in> set (type_defs ds). \<forall>f \<in> set (td_fields t). type_refs (tf_type f) \<subseteq> C \<Longrightarrow>
     within C S'"
proof (induction ds arbitrary: S)
  case Nil
  then show ?case by simp
next
  case (Cons d ds)
  show ?case
  proof (cases d)
    case (TypeDefD t)
    with Cons.prems(1) obtain s where s: "generateTypeDefComponent g t = Inr s"
      and r: "typeDefLoop g ds (AList.update (td_name t) s S) = Inr S'"
      by (auto simp: bindE_eq_Inr)
    have "set (collect_refs s) \<subseteq> C"
      using generateTypeDefComponent_refs [OF s] Cons.prems(3) TypeDefD by simp
    then have "within C (AList.update (td_name t) s S)"
      using Cons.prems(2) by (intro within_update)
    then show ?thesis
      using Cons.IH [OF r] Cons.prems(3) TypeDefD by simp
  qed (use Cons in simp_all)
qed

lemma within_mono: "within C S \<Longrightarrow> C \<subseteq> D \<Longrightarrow> within D S"
  by (fastforce simp: within_def)

lemma shared_in_components: "set shared_names \<subseteq> set (component_names g)"
  by (simp add: component_names_def)

lemma resolves_refs:
  assumes "resolves g t"
  shows "type_refs t \<subseteq> set (component_names g)"
proof (cases "ft_reference t")
  case None
  then show ?thesis by (simp add: type_refs_def)
next
  case (Some d)
  show ?thesis
  proof (cases d)
    case (EnumRef n)
    then show ?thesis
      using assms Some by (simp add: resolves_def type_refs_def component_names_def)
  next
    case (TypeDefRef n)
    then show ?thesis
      using assms Some by (auto simp: resolves_def type_refs_def component_names_def)
  next
    case (DataModelRef n)
    then have "n \<in> dm_name ` set (dataModels g)"
      using assms Some by (simp add: resolves_def)
    then obtain m where "m \<in> set (dataModels g)" and "n = dm_name m"
      by auto
    then have "n \<in> (\<Union>m \<in> set (dataModels g). set (model_component_names (dm_name m)))"
      by (auto simp: model_component_names_def)
    then show ?thesis
      using Some DataModelRef by (simp add: type_refs_def component_names_def)
  qed
qed

lemma model_names_in_components:
  "m \<in> set (dataModels g) \<Longrightarrow> set (model_component_names (dm_name m)) \<subseteq> set (component_names g)"
  by (auto simp: component_names_def)

lemma entity_bound_in_components:
  assumes "\<forall>f \<in> set fs. resolves g (f_type f)"
  shows "entity_bound fs \<subseteq> set (component_names g)"
proof -
  have "relationship_shapes \<subseteq> set shared_names"
    by (simp add: relationship_shapes_def shared_names_def)
  then show ?thesis
    using assms resolves_refs shared_in_components [of g]
    by (fastforce simp: entity_bound_def)
qed

lemma fixed_in_shared:
  "''_meta'' \<in> set shared_names" "''_jsonapi'' \<in> set shared_names"
  "''_resource'' \<in> set shared_names" "''_links'' \<in> set shared_names"
  "''_pagination'' \<in> set shared_names" "''_errorResponse'' \<in> set shared_names"
  "''_toManyRelationshipRequest'' \<in> set shared_names"
  "''_toOneRelationshipRequest'' \<in> set shared_names"
  "''_toManyRelationshipResponse'' \<in> set shared_names"
  "''_toOneRelationshipResponse'' \<in> set shared_names"
  by (simp_all add: shared_names_def)

lemma model_bound_in_components:
  assumes "m \<in> set (dataModels g)" and "\<forall>f \<in> set (dm_fields m). resolves g (f_type f)"
  shows "model_bound m \<subseteq> set (component_names g)"
proof -
  have "dm_name m \<in> set (model_component_names (dm_name m))"
    by (simp add: model_component_names_def)
  then have n: "dm_name m \<in> set (component_names g)"
    using model_names_in_components [OF assms(1)] by blast
  have f: "''_meta'' \<in> set (component_names g)" "''_jsonapi'' \<in> set (component_names g)"
    "''_resource'' \<in> set (component_names g)" "''_links'' \<in> set (component_names g)"
    "''_pagination'' \<in> set (component_names g)"
    using fixed_in_shared(1-5) shared_in_components [of g] by blast+
  show ?thesis
    unfolding model_bound_def
    using entity_bound_in_components [OF assms(2)] n f
    by (simp only: Un_subset_iff insert_subset empty_subsetI simp_thms)
qed

lemma generateComponents_closed:
  assumes gc: "generateComponents g = Inr S" and rr: "references_resolve g"
  shows "fst ` set S = set (component_names g)"
    and "within (set (component_names g)) S"
proof -
  let ?C = "set (component_names g)"
  let ?S0 = "assign_all [] (generateSharedComponents g)"
  let ?S1 = "enumLoop (declarations g) ?S0"
  from gc obtain S2 where dm: "dataModelLoop g (dataModels g) ?S1 = Inr S2"
    and td: "typeDefLoop g (declarations g) S2 = Inr S"
    by (auto simp: generateComponents_def Let_def bindE_eq_Inr)
  have "fst ` set ?S0 = fst ` set (generateSharedComponents g)"
    by (simp add: assign_all_keys)
  also have "\<dots> = set (map fst (generateSharedComponents g))"
    by simp
  also have "\<dots> = set shared_names"
    by (simp only: shared_keys)
  finally have k0: "fst ` set ?S0 = set shared_names" .
  have "within (set shared_names) (generateSharedComponents g)"
    using shared_refs [of g] by (simp add: within_def)
  then have "within ?C (generateSharedComponents g)"
    using shared_in_components by (rule within_mono)
  then have w0: "within ?C ?S0"
    by (intro assign_all_within) simp_all
  have w1: "within ?C ?S1"
    using w0 by (rule enumLoop_within)
  have mb: "\<forall>m \<in> set (dataModels g). model_bound m \<subseteq> ?C"
    using rr model_bound_in_components
    by (auto simp: references_resolve_def list_all_iff)
  have w2: "within ?C S2"
    using dataModelLoop_within [OF dm w1 mb] .
  have tb: "\<forall>t \<in> set (type_defs (declarations g)). \<forall>f \<in> set (td_fields t).
      type_refs (tf_type f) \<subseteq> ?C"
    using rr resolves_refs by (auto simp: references_resolve_def list_all_iff)
  show "within ?C S"
    using typeDefLoop_within [OF td w2 tb] .
  show "fst ` set S = ?C"
    unfolding typeDefLoop_keys [OF td] dataModelLoop_keys [OF dm] enumLoop_keys k0
    by (auto simp: component_names_def)
qed

subsection \<open>References of the generated paths\<close>

lemma operations_set:
  "set (operations item)
     = {op. pi_get item = Some op \<or> pi_post item = Some op \<or> pi_put item = Some op
          \<or> pi_patch item = Some op \<or> pi_delete item = Some op}"
  by (auto simp: operations_def split: option.splits)

lemma item_within_empty [simp]: "item_within C empty_item"
  by (simp add: item_within_def operations_set empty_item_def)

lemma item_within_update:
  assumes "item_within C item" and "set (operation_refs op) \<subseteq> C"
  shows "item_within C (item\<lparr>pi_get := Some op\<rparr>)" "item_within C (item\<lparr>pi_post := Some op\<rparr>)"
    "item_within C (item\<lparr>pi_put := Some op\<rparr>)" "item_within C (item\<lparr>pi_patch := Some op\<rparr>)"
  using assms by (auto simp: item_within_def operations_set)

lemma paths_within_container: "paths_within C r \<Longrightarrow> item_within C (container r p)"
  by (auto simp: container_def paths_within_def split: option.splits dest: map_of_SomeD)

lemma paths_within_update:
  "paths_within C r \<Longrightarrow> item_within C item \<Longrightarrow> paths_within C (AList.update p item r)"
  using set_update_subset [of p item r] by (fastforce simp: paths_within_def)

lemma paths_within_Nil [simp]: "paths_within C []"
  by (simp add: paths_within_def)

lemma path_refs_within: "paths_within C ps \<Longrightarrow> set (path_refs ps) \<subseteq> C"
  by (fastforce simp: path_refs_def paths_within_def item_within_def)

lemma parameter_refs_parameter [simp]: "parameter_refs (parameter t) = []"
  by (simp add: parameter_refs_def parameter_def parameter_ref_def schema_ref_name_def
      schema_prefix_def)

lemma makeFilterParameter_refs:
  assumes "makeFilterParameter f n d a so = Inr p"
    and "case so of None \<Rightarrow> True | Some s \<Rightarrow> collect_refs s = []"
  shows "set (parameter_refs p) \<subseteq> type_refs (f_type f)"
proof (cases so)
  case (Some s)
  then show ?thesis
    using assms by (auto simp: makeFilterParameter_def parameter_refs_def)
next
  case None
  show ?thesis
  proof (cases "ft_reference (f_type f)")
    case N: None
    then show ?thesis
      using assms(1) None fieldType_refs [of "f_type f"]
      by (auto simp: makeFilterParameter_def parameter_refs_def bindE_eq_Inr Let_def
          split: if_splits)
  next
    case (Some r)
    then show ?thesis
      using assms(1) None fieldType_refs [of "f_type f"]
      by (cases r)
         (auto simp: makeFilterParameter_def parameter_refs_def bindE_eq_Inr Let_def
           type_refs_def split: if_splits)
  qed
qed

lemma sequenceE_all:
  "sequenceE ms = Inr xs \<Longrightarrow> list_all (\<lambda>m. \<forall>x. m = Inr x \<longrightarrow> P x) ms \<Longrightarrow> \<forall>x \<in> set xs. P x"
proof (induction ms arbitrary: xs)
  case Nil
  then show ?case by simp
next
  case (Cons m ms)
  from Cons.prems(1) obtain y ys where "m = Inr y" "sequenceE ms = Inr ys" "xs = y # ys"
    by (auto simp: bindE_eq_Inr)
  then show ?case
    using Cons.IH [of ys] Cons.prems(2) by simp
qed

lemma fieldFilterParameters_refs:
  assumes "fieldFilterParameters h f = Inr ps"
  shows "\<forall>p \<in> set ps. set (parameter_refs p) \<subseteq> type_refs (f_type f)"
proof (cases "isForeignKeyField f")
  case True
  then show ?thesis
    using assms by (auto simp: fieldFilterParameters_def)
next
  case False
  have q: "\<forall>p. makeFilterParameter f n d a None = Inr p \<longrightarrow>
             set (parameter_refs p) \<subseteq> type_refs (f_type f)" for n d a
    using makeFilterParameter_refs [of f n d a None] by simp
  have qb: "\<forall>p. makeFilterParameter f n d a (Some (JObj [(''type'', JStr ''boolean'')])) = Inr p \<longrightarrow>
             set (parameter_refs p) \<subseteq> type_refs (f_type f)" for n d a
    using makeFilterParameter_refs [of f n d a "Some (JObj [(''type'', JStr ''boolean'')])"]
    by simp
  obtain L where "sequenceE L = Inr ps"
    and "list_all (\<lambda>m. \<forall>p. m = Inr p \<longrightarrow> set (parameter_refs p) \<subseteq> type_refs (f_type f)) L"
    using assms False unfolding fieldFilterParameters_def
    by (auto split: if_splits simp del: sequenceE.simps simp: q qb intro: that)
  then show ?thesis
    by (rule sequenceE_all)
qed

lemma filterLoop_refs:
  "filterLoop h fs acc = Inr ps \<Longrightarrow> \<forall>p \<in> set acc. set (parameter_refs p) \<subseteq> C \<Longrightarrow>
     \<forall>f \<in> set fs. type_refs (f_type f) \<subseteq> C \<Longrightarrow> \<forall>p \<in> set ps. set (parameter_refs p) \<subseteq> C"
proof (induction fs arbitrary: acc)
  case Nil
  then show ?case by simp
next
  case (Cons f fs)
  from Cons.prems(1) obtain qs where q: "fieldFilterParameters h f = Inr qs"
    and rest: "filterLoop h fs (acc @ qs) = Inr ps"
    by (auto simp: bindE_eq_Inr)
  have f: "type_refs (f_type f) \<subseteq> C"
    using Cons.prems(3) by simp
  have "\<forall>p \<in> set qs. set (parameter_refs p) \<subseteq> C"
  proof
    fix p
    assume "p \<in> set qs"
    then have "set (parameter_refs p) \<subseteq> type_refs (f_type f)"
      using fieldFilterParameters_refs [OF q] by simp
    then show "set (parameter_refs p) \<subseteq> C"
      using f by (rule subset_trans)
  qed
  then have "\<forall>p \<in> set (acc @ qs). set (parameter_refs p) \<subseteq> C"
    using Cons.prems(2) by (simp add: ball_Un)
  moreover have "\<forall>f \<in> set fs. type_refs (f_type f) \<subseteq> C"
    using Cons.prems(3) by simp
  ultimately show ?case
    by (rule Cons.IH [OF rest])
qed

lemma generateFilterParameters_refs:
  assumes "generateFilterParameters z = Inr ps"
  shows "set (concat (map parameter_refs ps)) \<subseteq> path_bound z"
proof -
  let ?U = "\<Union>f \<in> set (dm_fields z). type_refs (f_type f)"
  have loop: "filterLoop (1 < length (filter isIdField (dm_fields z))) (dm_fields z) [] = Inr ps"
    using assms by (simp add: generateFilterParameters_def Let_def)
  have "\<forall>p \<in> set ps. set (parameter_refs p) \<subseteq> ?U"
    by (rule filterLoop_refs [OF loop]) (simp, blast)
  then have "set (concat (map parameter_refs ps)) \<subseteq> ?U"
    by (simp add: UN_subset_iff)
  also have "?U \<subseteq> path_bound z"
    unfolding path_bound_def by (simp only: Un_upper1 Un_upper2 le_supI1 le_supI2)
  finally show ?thesis .
qed

lemma bound_fixed:
  "''_errorResponse'' \<in> path_bound z" "''_toManyRelationshipRequest'' \<in> path_bound z"
  "''_toOneRelationshipRequest'' \<in> path_bound z" "''_toManyRelationshipResponse'' \<in> path_bound z"
  "''_toOneRelationshipResponse'' \<in> path_bound z"
  by (simp_all add: path_bound_def)

lemma bound_model:
  "dm_name z @ ''CreateRequest'' \<in> path_bound z" "dm_name z @ ''UpdateRequest'' \<in> path_bound z"
  "dm_name z @ ''Response'' \<in> path_bound z" "dm_name z @ ''ListResponse'' \<in> path_bound z"
proof -
  have sub: "set (model_component_names (dm_name z)) \<subseteq> path_bound z"
    unfolding path_bound_def by (simp only: Un_upper1 Un_upper2 le_supI1 le_supI2)
  show "dm_name z @ ''CreateRequest'' \<in> path_bound z"
    by (rule subsetD [OF sub]) (simp add: model_component_names_def)
  show "dm_name z @ ''UpdateRequest'' \<in> path_bound z"
    by (rule subsetD [OF sub]) (simp add: model_component_names_def)
  show "dm_name z @ ''Response'' \<in> path_bound z"
    by (rule subsetD [OF sub]) (simp add: model_component_names_def)
  show "dm_name z @ ''ListResponse'' \<in> path_bound z"
    by (rule subsetD [OF sub]) (simp add: model_component_names_def)
qed

lemma bound_related:
  assumes "f \<in> set (dm_fields z)" and "ft_reference (f_type f) = Some (DataModelRef rel)"
  shows "rel @ ''Response'' \<in> path_bound z" "rel @ ''ListResponse'' \<in> path_bound z"
proof -
  have "related_names f \<subseteq> (\<Union>f \<in> set (dm_fields z). related_names f)"
    using assms(1) by (rule UN_upper)
  also have "\<dots> \<subseteq> path_bound z"
    unfolding path_bound_def by (simp only: Un_upper1 Un_upper2 le_supI1 le_supI2)
  finally have sub: "related_names f \<subseteq> path_bound z" .
  show "rel @ ''Response'' \<in> path_bound z"
    by (rule subsetD [OF sub]) (simp add: related_names_def model_component_names_def assms(2))
  show "rel @ ''ListResponse'' \<in> path_bound z"
    by (rule subsetD [OF sub]) (simp add: related_names_def model_component_names_def assms(2))
qed

lemma option_refs_simps [simp]:
  "option_refs None = []" "option_refs (Some v) = collect_refs v"
  by (simp_all add: option_refs_def)

lemma response_refs [simp]:
  "option_refs (r_schema forbidden) = [''_errorResponse'']"
  "option_refs (r_schema notFound) = [''_errorResponse'']"
  "option_refs (r_schema validationError) = [''_errorResponse'']"
  "option_refs (r_schema (success None)) = []"
  by (simp_all add: option_refs_def forbidden_def notFound_def validationError_def success_def)

lemma success_refs: "set (option_refs (r_schema (success (Some c)))) \<subseteq> {c}"
  by (simp add: option_refs_def success_def)

lemma success_bound: "c \<in> B \<Longrightarrow> set (option_refs (r_schema (success (Some c)))) \<subseteq> B"
  by (rule subset_trans [OF success_refs]) simp

lemma makeResourceList_refs:
  assumes "makeResourceList z pol meta = Inr op"
  shows "set (operation_refs op) \<subseteq> path_bound z"
proof -
  from assms obtain filters where f: "generateFilterParameters z = Inr filters"
    and op: "op = \<lparr>operationId = ''list-'' @ dm_name z,
        description = ''List '' @ dquote (dm_name z) @ '' resources'',
        tags = [lowerCaseFirst (dm_name z)],
        parameters = [parameter ''include'', parameter ''sort'', parameter ''page-offset'',
                      parameter ''page-limit''] @ filters,
        requestBody = None,
        responses = [(''200'', success (Some (dm_name z @ ''ListResponse''))),
                     (''403'', forbidden)],
        op_security = operation_security meta (pol_read pol)\<rparr>"
    by (auto simp: makeResourceList_def bindE_eq_Inr)
  show ?thesis
    unfolding op operation_refs_def
    using generateFilterParameters_refs [OF f] success_bound [OF bound_model(4) [of z]]
      bound_fixed(1) [of z]
    by simp
qed

lemma resource_refs:
  "set (operation_refs (makeResourceCreate z pol meta)) \<subseteq> path_bound z"
  "set (operation_refs (makeResourceFetch z pol meta)) \<subseteq> path_bound z"
  "set (operation_refs (makeResourceUpdate z pol opId meta)) \<subseteq> path_bound z"
  "set (operation_refs (makeResourceDelete z pol meta)) \<subseteq> path_bound z"
  unfolding makeResourceCreate_def makeResourceFetch_def makeResourceUpdate_def
    makeResourceDelete_def operation_refs_def
  using success_bound [OF bound_model(3) [of z]] bound_fixed(1) [of z] bound_model(1,2) [of z]
  by simp_all

lemma relationship_refs:
  "set (operation_refs (makeRelationshipCreate z f pol meta)) \<subseteq> path_bound z"
  "set (operation_refs (makeRelationshipUpdate z f pol opId meta)) \<subseteq> path_bound z"
  unfolding makeRelationshipCreate_def makeRelationshipUpdate_def operation_refs_def
  using success_bound [OF bound_fixed(4) [of z]] success_bound [OF bound_fixed(5) [of z]]
    bound_fixed [of z]
  by simp_all

lemma makeRelationshipFetch_refs:
  assumes "makeRelationshipFetch z f pol meta = Inr op"
  shows "set (operation_refs op) \<subseteq> path_bound z"
proof -
  from assms obtain params where
    p: "(if ft_array (f_type f)
         then bindE (generateFilterParameters z) (\<lambda>filters. Inr
                ([parameter ''id'']
                 @ [parameter ''sort'', parameter ''page-offset'', parameter ''page-limit'']
                 @ filters))
         else Inr [parameter ''id'']) = Inr params"
    and op: "parameters op = params" "requestBody op = None"
      "responses op = [(''200'', if ft_array (f_type f)
                                 then success (Some ''_toManyRelationshipResponse'')
                                 else success (Some ''_toOneRelationshipResponse'')),
                       (''403'', forbidden), (''404'', notFound)]"
    by (auto simp: makeRelationshipFetch_def bindE_eq_Inr)
  have "set (concat (map parameter_refs params)) \<subseteq> path_bound z"
  proof (cases "ft_array (f_type f)")
    case True
    with p obtain filters where fp: "generateFilterParameters z = Inr filters"
      and ps: "set (concat (map parameter_refs params)) = set (concat (map parameter_refs filters))"
      by (auto simp: bindE_eq_Inr)
    show ?thesis
      unfolding ps by (rule generateFilterParameters_refs [OF fp])
  next
    case False
    with p show ?thesis by auto
  qed
  then show ?thesis
    unfolding operation_refs_def op
    using success_bound [OF bound_fixed(4) [of z]] success_bound [OF bound_fixed(5) [of z]]
      bound_fixed(1) [of z]
    by simp
qed

lemma makeRelatedFetch_refs:
  assumes "makeRelatedFetch g z f rel meta = Inr op"
    and "f \<in> set (dm_fields z)" and "ft_reference (f_type f) = Some (DataModelRef rel)"
  shows "set (operation_refs op) \<subseteq> path_bound z"
proof -
  from assms(1) obtain params where
    p: "(if ft_array (f_type f)
             then bindE (generateFilterParameters z) (\<lambda>filters. Inr
                    ([parameter ''id'', parameter ''include'']
                     @ [parameter ''sort'', parameter ''page-offset'', parameter ''page-limit'']
                     @ filters))
             else Inr [parameter ''id'', parameter ''include'']) = Inr params"
    and op: "parameters op = params" "requestBody op = None"
      "responses op = [(''200'', success (Some (if ft_array (f_type f)
                                                  then rel @ ''ListResponse''
                                                  else rel @ ''Response''))),
                        (''403'', forbidden), (''404'', notFound)]"
    by (auto simp: makeRelatedFetch_def Let_def bindE_eq_Inr)
  have "set (concat (map parameter_refs params)) \<subseteq> path_bound z"
  proof (cases "ft_array (f_type f)")
    case True
    with p obtain filters where fp: "generateFilterParameters z = Inr filters"
      and ps: "set (concat (map parameter_refs params)) = set (concat (map parameter_refs filters))"
      by (auto simp: bindE_eq_Inr)
    show ?thesis
      unfolding ps by (rule generateFilterParameters_refs [OF fp])
  next
    case False
    with p show ?thesis by auto
  qed
  moreover have "set (option_refs (r_schema (success (Some (if ft_array (f_type f)
                    then rel @ ''ListResponse'' else rel @ ''Response''))))) \<subseteq> path_bound z"
    using bound_related [OF assms(2,3)] by (intro success_bound) simp
  ultimately show ?thesis
    unfolding operation_refs_def op
    using bound_fixed(1) [of z]
    by simp
qed

subsection \<open>The references of the paths are components\<close>

lemma relationPaths_within:
  assumes step: "relationPaths g mn n z pol meta f r = Inr r'"
    and r: "paths_within (path_bound z) r" and f: "f \<in> set (dm_fields z)"
  shows "paths_within (path_bound z) r'"
proof (cases "\<exists>rel. ft_reference (f_type f) = Some (DataModelRef rel)")
  case False
  then have "relationPaths g mn n z pol meta f r = Inr r"
    by (auto simp: relationPaths_def split: option.splits decl_ref.splits)
  with step r show ?thesis by simp
next
  case True
  then obtain rel where ref: "ft_reference (f_type f) = Some (DataModelRef rel)"
    by blast
  from step ref obtain rf sf where rf: "makeRelatedFetch g z f rel meta = Inr rf"
    and sf: "makeRelationshipFetch z f pol meta = Inr sf"
    by (auto simp: relationPaths_def bindE_eq_Inr Let_def)
  let ?r1 = "AList.update (relatedDataPath g mn f)
               ((container r (relatedDataPath g mn f))\<lparr>pi_get := Some rf\<rparr>) r"
  let ?c = "(container ?r1 (relationshipPath g mn f))
              \<lparr>pi_get := Some sf,
               pi_put := Some (makeRelationshipUpdate z f pol
                           (''update-'' @ n @ ''-relationship-'' @ f_name f @ ''-put'') meta),
               pi_patch := Some (makeRelationshipUpdate z f pol
                           (''update-'' @ n @ ''-relationship-'' @ f_name f @ ''-patch'') meta)\<rparr>"
  have r': "r' = AList.update (relationshipPath g mn f)
                   (if ft_array (f_type f)
                    then ?c\<lparr>pi_post := Some (makeRelationshipCreate z f pol meta)\<rparr> else ?c) ?r1"
    using step ref rf sf by (auto simp: relationPaths_def Let_def split: if_splits)
  have w1: "paths_within (path_bound z) ?r1"
    by (intro paths_within_update item_within_update(1) paths_within_container r
        makeRelatedFetch_refs [OF rf f ref])
  have wc: "item_within (path_bound z) ?c"
    by (intro item_within_update paths_within_container w1 makeRelationshipFetch_refs [OF sf]
        relationship_refs)
  have wp: "item_within (path_bound z) (?c\<lparr>pi_post := Some (makeRelationshipCreate z f pol meta)\<rparr>)"
    using wc relationship_refs(1) by (rule item_within_update(2))
  show ?thesis
    unfolding r' using w1 wc wp by (cases "ft_array (f_type f)") (simp_all add: paths_within_update)
qed

lemma relationLoop_within:
  "relationLoop g mn n z pol meta fs r = Inr r' \<Longrightarrow> paths_within (path_bound z) r \<Longrightarrow>
     set fs \<subseteq> set (dm_fields z) \<Longrightarrow> paths_within (path_bound z) r'"
proof (induction fs arbitrary: r)
  case Nil
  then show ?case by simp
next
  case (Cons f fs)
  from Cons.prems(1) obtain r1 where s: "relationPaths g mn n z pol meta f r = Inr r1"
    and l: "relationLoop g mn n z pol meta fs r1 = Inr r'"
    by (auto simp: bindE_eq_Inr)
  have "f \<in> set (dm_fields z)"
    using Cons.prems(3) by simp
  then have "paths_within (path_bound z) r1"
    by (rule relationPaths_within [OF s Cons.prems(2)])
  moreover have "set fs \<subseteq> set (dm_fields z)"
    using Cons.prems(3) by simp
  ultimately show ?case
    by (rule Cons.IH [OF l])
qed

lemma generatePathsForModel_within:
  assumes "generatePathsForModel g n z = Inr r"
  shows "paths_within (path_bound z) r"
proof -
  let ?pol = "analyzePolicies g (dm_name z)"
  let ?meta = "getModelResourceMeta g (dm_name z)"
  let ?mn = "mapModelName g n"
  let ?B = "path_bound z"
  from assms obtain l r0 where l: "makeResourceList z ?pol ?meta = Inr l"
    and r0: "r0 = AList.update (base_path g ?mn @ ''/{id}'')
                 \<lparr>pi_get = Some (makeResourceFetch z ?pol ?meta), pi_post = None,
                  pi_put = Some (makeResourceUpdate z ?pol (''update-'' @ ?mn @ ''-put'') ?meta),
                  pi_patch = Some (makeResourceUpdate z ?pol (''update-'' @ ?mn @ ''-patch'') ?meta),
                  pi_delete = Some (makeResourceDelete z ?pol ?meta)\<rparr>
                 (AList.update (base_path g ?mn)
                   \<lparr>pi_get = Some l, pi_post = Some (makeResourceCreate z ?pol ?meta),
                    pi_put = None, pi_patch = None, pi_delete = None\<rparr> [])"
    and loop: "relationLoop g ?mn n z ?pol ?meta (dm_fields z) r0 = Inr r"
    by (auto simp: generatePathsForModel_def Let_def bindE_eq_Inr)
  have i1: "item_within ?B \<lparr>pi_get = Some l, pi_post = Some (makeResourceCreate z ?pol ?meta),
                    pi_put = None, pi_patch = None, pi_delete = None\<rparr>"
    unfolding item_within_def operations_def
    by (simp add: makeResourceList_refs [OF l] resource_refs)
  have i2: "item_within ?B \<lparr>pi_get = Some (makeResourceFetch z ?pol ?meta), pi_post = None,
                  pi_put = Some (makeResourceUpdate z ?pol (''update-'' @ ?mn @ ''-put'') ?meta),
                  pi_patch = Some (makeResourceUpdate z ?pol (''update-'' @ ?mn @ ''-patch'') ?meta),
                  pi_delete = Some (makeResourceDelete z ?pol ?meta)\<rparr>"
    unfolding item_within_def operations_def
    by (simp add: resource_refs)
  have "paths_within ?B r0"
    unfolding r0 by (intro paths_within_update paths_within_Nil i1 i2)
  then show ?thesis
    by (rule relationLoop_within [OF loop]) simp
qed

lemma paths_within_mono: "paths_within C r \<Longrightarrow> C \<subseteq> D \<Longrightarrow> paths_within D r"
  by (fastforce simp: paths_within_def item_within_def)

lemma spread_merge_within:
  "paths_within C r \<Longrightarrow> paths_within C e \<Longrightarrow> paths_within C (spread_merge r e)"
  unfolding spread_merge_def
proof (induction e arbitrary: r)
  case Nil
  then show ?case by simp
next
  case (Cons x e)
  obtain k v where x: "x = (k, v)"
    by (cases x)
  have "item_within C v"
    using Cons.prems(2) by (simp add: paths_within_def x)
  with Cons.prems(1) have "paths_within C (AList.update k v r)"
    by (rule paths_within_update)
  moreover have "paths_within C e"
    using Cons.prems(2) by (simp add: paths_within_def)
  ultimately have "paths_within C (foldl (\<lambda>acc (k, v). AList.update k v acc) (AList.update k v r) e)"
    by (rule Cons.IH)
  then show ?case
    by (simp add: x)
qed

lemma pathsLoop_within:
  "pathsLoop g ms (r, w) = Inr (r', w') \<Longrightarrow> paths_within C r \<Longrightarrow>
     (\<forall>n \<in> set ms. n \<in> set (map dm_name (includedModels g)) \<longrightarrow>
        (\<forall>z. find_data_model (declarations g) n = Some z \<longrightarrow> path_bound z \<subseteq> C)) \<Longrightarrow>
     paths_within C r'"
proof (induction ms arbitrary: r w)
  case Nil
  then show ?case by simp
next
  case (Cons n ms)
  have rest: "\<forall>n \<in> set ms. n \<in> set (map dm_name (includedModels g)) \<longrightarrow>
        (\<forall>z. find_data_model (declarations g) n = Some z \<longrightarrow> path_bound z \<subseteq> C)"
    using Cons.prems(3) by simp
  show ?case
  proof (cases "n \<in> set (map dm_name (includedModels g))")
    case False
    then have "pathsLoop g ms (r, w) = Inr (r', w')"
      using Cons.prems(1) by simp
    then show ?thesis
      using Cons.prems(2) rest by (rule Cons.IH)
  next
    case True
    show ?thesis
    proof (cases "find_data_model (declarations g) n")
      case None
      then have "pathsLoop g ms (r, w @ [warning_for n]) = Inr (r', w')"
        using Cons.prems(1) True by simp
      then show ?thesis
        using Cons.prems(2) rest by (rule Cons.IH)
    next
      case (Some z)
      with Cons.prems(1) True obtain e where e: "generatePathsForModel g n z = Inr e"
        and l: "pathsLoop g ms (spread_merge r e, w) = Inr (r', w')"
        by (auto simp: bindE_eq_Inr)
      have "path_bound z \<subseteq> C"
        using Cons.prems(3) True Some by simp
      with generatePathsForModel_within [OF e] have "paths_within C e"
        by (rule paths_within_mono)
      with Cons.prems(2) have "paths_within C (spread_merge r e)"
        by (rule spread_merge_within)
      then show ?thesis
        using rest by (rule Cons.IH [OF l])
    qed
  qed
qed

lemma related_in_components:
  assumes "resolves g (f_type f)"
  shows "related_names f \<subseteq> set (component_names g)"
proof (cases "ft_reference (f_type f)")
  case None
  then show ?thesis by (simp add: related_names_def)
next
  case (Some d)
  show ?thesis
  proof (cases d)
    case (DataModelRef rel)
    then have "rel \<in> dm_name ` set (dataModels g)"
      using assms Some by (simp add: resolves_def)
    then obtain m where m: "m \<in> set (dataModels g)" and rel: "rel = dm_name m"
      by auto
    show ?thesis
      using model_names_in_components [OF m] Some DataModelRef rel
      by (simp add: related_names_def)
  qed (simp_all add: related_names_def Some)
qed

lemma path_bound_in_components:
  assumes z: "z \<in> set (dataModels g)" and fs: "\<forall>f \<in> set (dm_fields z). resolves g (f_type f)"
  shows "path_bound z \<subseteq> set (component_names g)"
proof -
  let ?C = "set (component_names g)"
  have fixed: "{''_errorResponse'', ''_toManyRelationshipRequest'', ''_toOneRelationshipRequest'',
      ''_toManyRelationshipResponse'', ''_toOneRelationshipResponse''} \<subseteq> ?C"
    using fixed_in_shared(6-10) shared_in_components [of g]
    by (simp only: insert_subset empty_subsetI simp_thms subsetD)
  have types: "(\<Union>f \<in> set (dm_fields z). type_refs (f_type f)) \<subseteq> ?C"
    using fs resolves_refs by (simp add: UN_subset_iff)
  have related: "(\<Union>f \<in> set (dm_fields z). related_names f) \<subseteq> ?C"
    using fs related_in_components by (simp add: UN_subset_iff)
  show ?thesis
    unfolding path_bound_def
    using fixed model_names_in_components [OF z] types related
    by (simp only: Un_subset_iff simp_thms)
qed

lemma find_data_model_name: "find_data_model ds n = Some z \<Longrightarrow> dm_name z = n"
  by (induction ds n rule: find_data_model.induct) (auto split: if_splits)

lemma generate_references_exist:
  assumes gen: "generate g = Inr (ps, S, warnings)"
    and rr: "references_resolve g" and mc: "models_have_components g"
  shows "reachable S (path_refs ps) = fst ` set S"
proof -
  let ?C = "set (component_names g)"
  from gen obtain S0 where gc: "generateComponents g = Inr S0"
    and gp: "generatePaths g [] = Inr (ps, warnings)"
    and S: "S = pruneComponents ps S0"
    by (auto simp: generate_def bindE_eq_Inr)
  note closed = generateComponents_closed [OF gc rr]
  have bound: "\<forall>n \<in> set (dmmf_models g). n \<in> set (map dm_name (includedModels g)) \<longrightarrow>
        (\<forall>z. find_data_model (declarations g) n = Some z \<longrightarrow> path_bound z \<subseteq> ?C)"
  proof (intro ballI impI allI)
    fix n z
    assume n: "n \<in> set (dmmf_models g)" and i: "n \<in> set (map dm_name (includedModels g))"
      and z: "find_data_model (declarations g) n = Some z"
    have zd: "z \<in> set (dataModels g)"
      using mc n i z by (auto simp: models_have_components_def list_all_iff)
    then have "\<forall>f \<in> set (dm_fields z). resolves g (f_type f)"
      using rr by (auto simp: references_resolve_def list_all_iff)
    with zd show "path_bound z \<subseteq> ?C"
      by (rule path_bound_in_components)
  qed
  have "paths_within ?C ps"
    using gp paths_within_Nil bound unfolding generatePaths_def by (rule pathsLoop_within)
  then have roots: "set (path_refs ps) \<subseteq> fst ` set S0"
    unfolding closed(1) by (rule path_refs_within)
  have cl: "\<forall>(k, s) \<in> set S0. set (collect_refs s) \<subseteq> fst ` set S0"
    using closed(2) unfolding closed(1) within_def .
  show ?thesis
  proof
    show "reachable S (path_refs ps) \<subseteq> fst ` set S"
      unfolding S by (rule prune_keeps_referenced [OF roots cl])
    show "fst ` set S \<subseteq> reachable S (path_refs ps)"
      unfolding S using prune_no_orphans by blast
  qed
qed

lemma sample_generates: "\<not> isl (generate sample)"
  by code_simp

lemma sample_resolves: "references_resolve sample" "models_have_components sample"
  by code_simp+

lemma sample_references_exist:
  "reachable (fst (snd (projr (generate sample)))) (path_refs (fst (projr (generate sample))))
     = fst ` set (fst (snd (projr (generate sample))))"
proof -
  have "generate sample = Inr (fst (projr (generate sample)), fst (snd (projr (generate sample))),
      snd (snd (projr (generate sample))))"
    using sample_generates by (cases "generate sample") simp_all
  then show ?thesis
    using sample_resolves by (rule generate_references_exist)
qed

section \<open>Filter parameters of the related-resource operation\<close>

text \<open>
  C1. On the sample model, the operation \<open>GET /user/{id}/posts\<close> returns a list of posts,
  and its filter parameters are those of \<open>User\<close>, the owning entity: \<open>filter[posts]\<close> is
  among them, and \<open>filter[author]\<close> of the related entity \<open>Post\<close> is not.
\<close>

theorem related_fetch_filters_of_owner:
  "map_option (map parameter_name \<circ> parameters)
     (pi_get (the (map_of (projr (generatePathsForModel sample ''User'' sample_user))
        ''/user/{id}/posts'')))
     = Some [''#/components/parameters/id'', ''#/components/parameters/include'',
             ''#/components/parameters/sort'', ''#/components/parameters/page-offset'',
             ''#/components/parameters/page-limit'', ''filter[id]'', ''filter[posts]'']
   \<and> map_sum id (map parameter_name) (generateFilterParameters sample_user)
     = Inr [''filter[id]'', ''filter[posts]'']
   \<and> map_sum id (map parameter_name) (generateFilterParameters sample_post)
     = Inr [''filter[id]'', ''filter[author]'']"
  by code_simp


section \<open>The identifier of an entity schema\<close>

text \<open>
  C2, amended. The create-mode entity schema has a top-level \<open>id\<close> property if and only if
  \<open>id\<close> is in its top-level \<open>required\<close> list, and both hold exactly when the entity has a
  single identifier field that has no \<open>@default\<close>; in read and update mode \<open>id\<close> is always
  a property and always required.
\<close>

theorem entity_id_property:
  assumes "generateModelEntity g model mode = Inr schema"
  shows "(mode = Create \<longrightarrow>
            (has_property ''id'' schema \<longleftrightarrow> single_id_without_default model)
          \<and> (requires ''id'' schema \<longleftrightarrow> single_id_without_default model))
     \<and> (mode \<noteq> Create \<longrightarrow> has_property ''id'' schema \<and> requires ''id'' schema)"
  using assms
  unfolding generateModelEntity_def Let_def single_id_without_default_iff
  by (auto simp: bindE_eq_Inr has_property_JObj requires_JObj fst_set_update
      split: if_splits prod.splits)

theorem entity_id_property_witness:
  "has_property ''id'' (projr (generateModelEntity sample sample_user Create))
   \<and> requires ''id'' (projr (generateModelEntity sample sample_user Create))
   \<and> \<not> requires ''id'' (projr (generateModelEntity sample sample_space Create))
   \<and> has_property ''id'' (projr (generateModelEntity sample sample_space Update))
   \<and> requires ''id'' (projr (generateModelEntity sample sample_space Update))"
proof -
  have u: "generateModelEntity sample sample_user Create
             = Inr (projr (generateModelEntity sample sample_user Create))"
    by code_simp
  have c: "generateModelEntity sample sample_space Create
             = Inr (projr (generateModelEntity sample sample_space Create))"
    by code_simp
  have s: "generateModelEntity sample sample_space Update
             = Inr (projr (generateModelEntity sample sample_space Update))"
    by code_simp
  have iu: "single_id_without_default sample_user" by code_simp
  have ic: "\<not> single_id_without_default sample_space" by code_simp
  show ?thesis
    using entity_id_property [OF u] entity_id_property [OF c] entity_id_property [OF s] iu ic
    by simp
qed

text \<open>
  The claim as stated fails: \<open>Space\<close> has a single identifier field, with \<open>@default\<close>, and
  its create-mode schema has no \<open>id\<close> property.
\<close>

theorem entity_id_property_counterexample:
  "length (filter isIdField (dm_fields sample_space)) = 1
   \<and> map_sum id (has_property ''id'') (generateModelEntity sample sample_space Create) = Inr False
   \<and> map_sum id (member ''properties'') (generateModelEntity sample sample_space Create)
       = Inr (Some (JObj
           [(''type'', JObj [(''type'', JStr ''string'')]),
            (''attributes'',
               JObj [(''type'', JStr ''object''), (''required'', JArr [JStr ''name'']),
                     (''properties'', JObj [(''name'', JObj [(''type'', JStr ''string'')])])])]))"
  by code_simp

section \<open>Security of the operations of an entity\<close>

text \<open>
  C3, amended. The paths of an entity hold exactly these operations, each with the security
  its policy gives: list and fetch by the read policy of the entity, create by its create
  policy, update (PUT and PATCH) by its update policy, delete by its delete policy, the
  relationship fetch by its read policy, the relationship update and create by its update
  policy, and the related-resource fetch by the read policy of the related entity. The
  security of an operation is \<open>[]\<close> when the override of the entity counts (it is neither
  undefined nor null) and is truthy, or when no override counts and the policy is \<open>true\<close>;
  otherwise it is unset. It is always \<open>[]\<close> or unset, never the override itself.
\<close>

theorem operation_security_by_policy:
  assumes "generatePathsForModel g model_name zmodel = Inr result"
    and "field_names_ok (dm_fields zmodel)"
  shows "\<exists>collection item.
       map_of result (base_path g (mapModelName g model_name)) = Some collection
     \<and> map_of result (base_path g (mapModelName g model_name) @ ''/{id}'') = Some item
     \<and> secured_by (pi_get collection) (getModelResourceMeta g (dm_name zmodel))
          (pol_read (analyzePolicies g (dm_name zmodel)))
     \<and> secured_by (pi_post collection) (getModelResourceMeta g (dm_name zmodel))
          (pol_create (analyzePolicies g (dm_name zmodel)))
     \<and> pi_put collection = None \<and> pi_patch collection = None \<and> pi_delete collection = None
     \<and> secured_by (pi_get item) (getModelResourceMeta g (dm_name zmodel))
          (pol_read (analyzePolicies g (dm_name zmodel)))
     \<and> pi_post item = None
     \<and> secured_by (pi_put item) (getModelResourceMeta g (dm_name zmodel))
          (pol_update (analyzePolicies g (dm_name zmodel)))
     \<and> secured_by (pi_patch item) (getModelResourceMeta g (dm_name zmodel))
          (pol_update (analyzePolicies g (dm_name zmodel)))
     \<and> secured_by (pi_delete item) (getModelResourceMeta g (dm_name zmodel))
          (pol_delete (analyzePolicies g (dm_name zmodel)))
     \<and> (\<forall>field \<in> set (dm_fields zmodel). \<forall>relationDecl.
          ft_reference (f_type field) = Some (DataModelRef relationDecl) \<longrightarrow>
          (\<exists>related rel.
               map_of result (relatedDataPath g (mapModelName g model_name) field) = Some related
             \<and> map_of result (relationshipPath g (mapModelName g model_name) field) = Some rel
             \<and> secured_by (pi_get related) (getModelResourceMeta g (dm_name zmodel))
                  (pol_read (analyzePolicies g relationDecl))
             \<and> pi_post related = None \<and> pi_put related = None \<and> pi_patch related = None
             \<and> pi_delete related = None
             \<and> secured_by (pi_get rel) (getModelResourceMeta g (dm_name zmodel))
                  (pol_read (analyzePolicies g (dm_name zmodel)))
             \<and> secured_by (pi_put rel) (getModelResourceMeta g (dm_name zmodel))
                  (pol_update (analyzePolicies g (dm_name zmodel)))
             \<and> secured_by (pi_patch rel) (getModelResourceMeta g (dm_name zmodel))
                  (pol_update (analyzePolicies g (dm_name zmodel)))
             \<and> (if ft_array (f_type field)
                 then secured_by (pi_post rel) (getModelResourceMeta g (dm_name zmodel))
                        (pol_update (analyzePolicies g (dm_name zmodel)))
                 else pi_post rel = None)
             \<and> pi_delete rel = None))
     \<and> (\<forall>p. p \<noteq> base_path g (mapModelName g model_name)
             \<and> p \<noteq> base_path g (mapModelName g model_name) @ ''/{id}''
             \<and> (\<forall>field \<in> set (dm_fields zmodel). isRelationshipField field \<longrightarrow>
                   p \<noteq> relatedDataPath g (mapModelName g model_name) field
                 \<and> p \<noteq> relationshipPath g (mapModelName g model_name) field)
            \<longrightarrow> map_of result p = None)"
proof -
  let ?meta = "getModelResourceMeta g (dm_name zmodel)"
  let ?pol = "analyzePolicies g (dm_name zmodel)"
  let ?mn = "mapModelName g model_name"
  note m = generatePathsForModel_map [OF assms]
  from m obtain l where l: "makeResourceList zmodel ?pol ?meta = Inr l"
    and c: "map_of result (base_path g ?mn)
              = Some \<lparr>pi_get = Some l, pi_post = Some (makeResourceCreate zmodel ?pol ?meta),
                      pi_put = None, pi_patch = None, pi_delete = None\<rparr>"
    by blast
  from m have i: "map_of result (base_path g ?mn @ ''/{id}'')
           = Some \<lparr>pi_get = Some (makeResourceFetch zmodel ?pol ?meta), pi_post = None,
                   pi_put = Some (makeResourceUpdate zmodel ?pol (''update-'' @ ?mn @ ''-put'') ?meta),
                   pi_patch = Some (makeResourceUpdate zmodel ?pol (''update-'' @ ?mn @ ''-patch'') ?meta),
                   pi_delete = Some (makeResourceDelete zmodel ?pol ?meta)\<rparr>"
    by blast
  from m have others: "\<forall>p. p \<noteq> base_path g ?mn \<and> p \<noteq> base_path g ?mn @ ''/{id}''
             \<and> (\<forall>field \<in> set (dm_fields zmodel). isRelationshipField field \<longrightarrow>
                   p \<noteq> relatedDataPath g ?mn field \<and> p \<noteq> relationshipPath g ?mn field)
            \<longrightarrow> map_of result p = None"
    by blast
  obtain filters where fp: "generateFilterParameters zmodel = Inr filters"
    using generatePathsForModel_filters [OF assms(1)] by blast
  have rels: "\<forall>field \<in> set (dm_fields zmodel). \<forall>relationDecl.
          ft_reference (f_type field) = Some (DataModelRef relationDecl) \<longrightarrow>
          (\<exists>related rel.
               map_of result (relatedDataPath g ?mn field) = Some related
             \<and> map_of result (relationshipPath g ?mn field) = Some rel
             \<and> secured_by (pi_get related) ?meta (pol_read (analyzePolicies g relationDecl))
             \<and> pi_post related = None \<and> pi_put related = None \<and> pi_patch related = None
             \<and> pi_delete related = None
             \<and> secured_by (pi_get rel) ?meta (pol_read ?pol)
             \<and> secured_by (pi_put rel) ?meta (pol_update ?pol)
             \<and> secured_by (pi_patch rel) ?meta (pol_update ?pol)
             \<and> (if ft_array (f_type field)
                 then secured_by (pi_post rel) ?meta (pol_update ?pol)
                 else pi_post rel = None)
             \<and> pi_delete rel = None)"
  proof (intro ballI allI impI)
    fix field relationDecl
    assume f: "field \<in> set (dm_fields zmodel)"
      and ref: "ft_reference (f_type field) = Some (DataModelRef relationDecl)"
    with m obtain rf sf where rf: "makeRelatedFetch g zmodel field relationDecl ?meta = Inr rf"
      and sf: "makeRelationshipFetch zmodel field ?pol ?meta = Inr sf"
      and rt: "map_of result (relatedDataPath g ?mn field) = Some (empty_item\<lparr>pi_get := Some rf\<rparr>)"
      and it: "map_of result (relationshipPath g ?mn field)
                 = Some (relationship_item zmodel model_name field ?pol ?meta sf)"
      by blast
    from makeRelationshipFetch_ok [OF fp, of field ?pol ?meta] sf
    have s: "op_security sf = effective_security ?meta (pol_read ?pol)"
      by (auto simp: operation_security_effective)
    from makeRelatedFetch_ok [OF fp, of g field relationDecl ?meta] rf
    have r: "op_security rf = effective_security ?meta (pol_read (analyzePolicies g relationDecl))"
      by (auto simp: operation_security_effective)
    show "\<exists>related rel.
               map_of result (relatedDataPath g ?mn field) = Some related
             \<and> map_of result (relationshipPath g ?mn field) = Some rel
             \<and> secured_by (pi_get related) ?meta (pol_read (analyzePolicies g relationDecl))
             \<and> pi_post related = None \<and> pi_put related = None \<and> pi_patch related = None
             \<and> pi_delete related = None
             \<and> secured_by (pi_get rel) ?meta (pol_read ?pol)
             \<and> secured_by (pi_put rel) ?meta (pol_update ?pol)
             \<and> secured_by (pi_patch rel) ?meta (pol_update ?pol)
             \<and> (if ft_array (f_type field)
                 then secured_by (pi_post rel) ?meta (pol_update ?pol)
                 else pi_post rel = None)
             \<and> pi_delete rel = None"
      unfolding rt it
      using s r by (simp add: relationship_item_def empty_item_def secured_by_def maker_security)
  qed
  have base: "secured_by (Some l) ?meta (pol_read ?pol)"
    using makeResourceList_security [OF l] by (simp add: secured_by_def)
  show ?thesis
    unfolding c i
    using base rels others by (simp add: secured_by_def maker_security)
qed

theorem operation_security_by_policy_witness:
  "map_option op_security
     (pi_get (the (map_of (projr (generatePathsForModel sample ''Post'' sample_post)) ''/post'')))
     = Some (Some [])
   \<and> map_option op_security
     (pi_post (the (map_of (projr (generatePathsForModel sample ''Post'' sample_post)) ''/post'')))
     = Some None
   \<and> map_option op_security
     (pi_delete (the (map_of (projr (generatePathsForModel sample_override ''User'' sample_user))
        ''/user/{id}'')))
     = Some (Some [])
   \<and> map_option op_security
     (pi_get (the (map_of (projr (generatePathsForModel sample_falsy ''Post'' sample_post)) ''/post'')))
     = Some None"
proof -
  have pp: "base_path sample (mapModelName sample ''Post'') = ''/post''" by code_simp
  have pu: "base_path sample_override (mapModelName sample_override ''User'') = ''/user''"
    by code_simp
  have pf: "base_path sample_falsy (mapModelName sample_falsy ''Post'') = ''/post''" by code_simp
  have s1: "effective_security (getModelResourceMeta sample (dm_name sample_post))
              (pol_read (analyzePolicies sample (dm_name sample_post))) = Some []" by code_simp
  have s2: "effective_security (getModelResourceMeta sample (dm_name sample_post))
              (pol_create (analyzePolicies sample (dm_name sample_post))) = None" by code_simp
  have s3: "effective_security (getModelResourceMeta sample_override (dm_name sample_user))
              (pol_delete (analyzePolicies sample_override (dm_name sample_user))) = Some []"
    by code_simp
  have s4: "effective_security (getModelResourceMeta sample_falsy (dm_name sample_post))
              (pol_read (analyzePolicies sample_falsy (dm_name sample_post))) = None" by code_simp
  from operation_security_by_policy [OF sample_post_paths sample_names_ok(2)]
  obtain c1 where c1: "map_of (projr (generatePathsForModel sample ''Post'' sample_post)) ''/post''
        = Some c1"
    and g1: "op_security (the (pi_get c1)) = Some []" "pi_get c1 \<noteq> None"
    and p1: "op_security (the (pi_post c1)) = None" "pi_post c1 \<noteq> None"
    unfolding pp by (auto simp: secured_by_def s1 s2 split: option.splits)
  from operation_security_by_policy [OF sample_override_paths sample_names_ok(1)]
  obtain i2 where i2: "map_of (projr (generatePathsForModel sample_override ''User'' sample_user))
        ''/user/{id}'' = Some i2"
    and d2: "op_security (the (pi_delete i2)) = Some []" "pi_delete i2 \<noteq> None"
    unfolding pu by (auto simp: secured_by_def s3 split: option.splits)
  from operation_security_by_policy [OF sample_falsy_paths(2) sample_names_ok(2)]
  obtain c3 where c3: "map_of (projr (generatePathsForModel sample_falsy ''Post'' sample_post))
        ''/post'' = Some c3"
    and g3: "op_security (the (pi_get c3)) = None" "pi_get c3 \<noteq> None"
    unfolding pf by (auto simp: secured_by_def s4 split: option.splits)
  show ?thesis
    unfolding c1 i2 c3 using g1 p1 d2 g3 by auto
qed

text \<open>
  The claim as stated fails: with \<open>security: false\<close> in its metadata, \<open>Post\<close> has a
  resource-level override, and its read policy is \<open>true\<close>, yet the list operation
  \<open>GET /post\<close> has no security.
\<close>

theorem operation_security_by_policy_counterexample:
  "has_security_override (getModelResourceMeta sample_falsy (dm_name sample_post))
   \<and> pol_read (analyzePolicies sample_falsy (dm_name sample_post)) = JBool True
   \<and> open_security (getModelResourceMeta sample_falsy (dm_name sample_post))
        (pol_read (analyzePolicies sample_falsy (dm_name sample_post))) = Some []
   \<and> map_option op_security
        (pi_get (the (map_of (projr (generatePathsForModel sample_falsy ''Post'' sample_post))
           ''/post'')))
      = Some None"
  by code_simp

section \<open>References of the paths after pruning\<close>

text \<open>
  C4. Every component referenced from a path exists in the component schemas of the
  assembled document. On the sample model whose \<open>Post\<close> is marked \<open>@@ignore\<close> this fails:
  generation succeeds; the paths are those of \<open>User\<close>, the related-resource path
  \<open>/user/{id}/posts\<close> among them; its \<open>GET\<close> answers with a reference to
  \<open>PostListResponse\<close>, which is therefore among the references of the paths; and the
  component schemas of the document, listed last, hold no \<open>PostListResponse\<close>.
\<close>

theorem ignored_relation_target_dangles:
  "map_sum id
     (\<lambda>(ps, schemas, warnings).
        (map fst ps,
         map_option (map (\<lambda>(code, r). (code, r_schema r)) \<circ> responses)
           (pi_get (the (map_of ps ''/user/{id}/posts''))),
         ''PostListResponse'' \<in> set (path_refs ps),
         map fst schemas))
     (generate sample_ignored)
   = Inr ([''/user'', ''/user/{id}'', ''/user/{id}/posts'', ''/user/{id}/relationships/posts''],
          Some [(''200'', Some (JObj [(''$ref'', JStr ''#/components/schemas/PostListResponse'')])),
                (''403'', Some (JObj [(''$ref'', JStr ''#/components/schemas/_errorResponse'')])),
                (''404'', Some (JObj [(''$ref'', JStr ''#/components/schemas/_errorResponse'')]))],
          True,
          [''_jsonapi'', ''_meta'', ''_resourceIdentifier'', ''_resource'', ''_links'',
           ''_pagination'', ''_errors'', ''_errorResponse'', ''_relationLinks'',
           ''_toManyRelationship'', ''_toManyRelationshipWithLinks'', ''_pagedRelationLinks'',
           ''_toManyRelationshipRequest'', ''_toManyRelationshipResponse'', ''User'',
           ''UserCreateRequest'', ''UserUpdateRequest'', ''UserResponse'', ''UserListResponse''])"
  by code_simp


section \<open>The identifier filter\<close>




section \<open>Operation ids\<close>

text \<open>
  C6. On the sample model with \<open>Post\<close> mapped to the name \<open>User-relationship-posts\<close>, the
  document holds the operation id \<open>update-User-relationship-posts-put\<close> twice: once for the
  relationship \<open>posts\<close> of \<open>User\<close>, once for the update of \<open>Post\<close>, whose id is built from
  the mapped name.
\<close>

theorem operation_ids_collide:
  "map_sum id (map fst \<circ> fst) (generatePaths sample_mapped [])
     = Inr [''/user'', ''/user/{id}'', ''/user/{id}/posts'', ''/user/{id}/relationships/posts'',
            ''/user-relationship-posts'', ''/user-relationship-posts/{id}'',
            ''/user-relationship-posts/{id}/author'',
            ''/user-relationship-posts/{id}/relationships/author'']
   \<and> map_option operationId
       (pi_put (the (map_of (fst (projr (generatePaths sample_mapped [])))
          ''/user/{id}/relationships/posts'')))
     = Some ''update-User-relationship-posts-put''
   \<and> map_option operationId
       (pi_put (the (map_of (fst (projr (generatePaths sample_mapped [])))
          ''/user-relationship-posts/{id}'')))
     = Some ''update-User-relationship-posts-put''
   \<and> \<not> distinct (operation_ids (fst (projr (generatePaths sample_mapped []))))"
  by code_simp

section \<open>Relationship paths\<close>

text \<open>
  C7. For every relationship field of an entity, the path item at
  \<open>/<entity>/{id}/relationships/<field>\<close> carries a POST operation if and only if the field
  is array-valued; it always carries GET, PUT and PATCH, and never DELETE.
\<close>

theorem relationships_post_iff_array:
  assumes "generatePathsForModel g model_name zmodel = Inr result"
    and "field_names_ok (dm_fields zmodel)"
    and "field \<in> set (dm_fields zmodel)"
    and "isRelationshipField field"
  shows "\<exists>item. map_of result (relationshipPath g (mapModelName g model_name) field) = Some item
     \<and> (pi_post item \<noteq> None \<longleftrightarrow> ft_array (f_type field))
     \<and> pi_get item \<noteq> None \<and> pi_put item \<noteq> None \<and> pi_patch item \<noteq> None
     \<and> pi_delete item = None"
proof -
  obtain rel where "ft_reference (f_type field) = Some (DataModelRef rel)"
    using assms(4) by (auto simp: isRelationshipField_def elim: isDataModelRef.elims)
  with generatePathsForModel_map [OF assms(1,2)] assms(3)
  obtain sf where "map_of result (relationshipPath g (mapModelName g model_name) field)
      = Some (relationship_item zmodel model_name field (analyzePolicies g (dm_name zmodel))
                (getModelResourceMeta g (dm_name zmodel)) sf)"
    by blast
  then show ?thesis
    by (simp add: relationship_item_def)
qed

theorem relationships_post_iff_array_witness:
  "pi_post (the (map_of (projr (generatePathsForModel sample ''User'' sample_user))
                  ''/user/{id}/relationships/posts'')) \<noteq> None
   \<and> pi_post (the (map_of (projr (generatePathsForModel sample ''Post'' sample_post))
                  ''/post/{id}/relationships/author'')) = None"
proof -
  note u = sample_user_paths
  note p = sample_post_paths
  note oku = sample_names_ok(1)
  note okp = sample_names_ok(2)
  note mu = sample_members(1)
  note mp = sample_members(2)
  have ru: "isRelationshipField user_posts" by code_simp
  have rp: "isRelationshipField post_author" by code_simp
  have au: "ft_array (f_type user_posts)" by code_simp
  have ap: "\<not> ft_array (f_type post_author)" by code_simp
  have pu: "relationshipPath sample (mapModelName sample ''User'') user_posts
              = ''/user/{id}/relationships/posts''" by code_simp
  have pp: "relationshipPath sample (mapModelName sample ''Post'') post_author
              = ''/post/{id}/relationships/author''" by code_simp
  show ?thesis
    using relationships_post_iff_array [OF u oku mu ru]
      relationships_post_iff_array [OF p okp mp rp] au ap
    unfolding pu pp by auto
qed


section \<open>Models without a declaration\<close>



section \<open>Security of the related-resource operation\<close>

text \<open>
  C10, amended. For every relationship field, the operation \<open>GET /<entity>/{id}/<field>\<close>
  takes its security from the resource-level security override of the owning entity and
  the read policy of the related entity: the empty list when the override of the owning
  entity counts (it is neither undefined nor null) and is truthy, or when no override
  counts and the read policy of the related entity is \<open>true\<close>; unset otherwise.
\<close>

theorem related_fetch_security:
  assumes "generatePathsForModel g model_name zmodel = Inr result"
    and "field_names_ok (dm_fields zmodel)"
    and "field \<in> set (dm_fields zmodel)"
    and "ft_reference (f_type field) = Some (DataModelRef relationDecl)"
  shows "\<exists>item. map_of result (relatedDataPath g (mapModelName g model_name) field) = Some item
     \<and> secured_by (pi_get item) (getModelResourceMeta g (dm_name zmodel))
          (pol_read (analyzePolicies g relationDecl))"
proof -
  from generatePathsForModel_map [OF assms(1,2)] assms(3,4)
  obtain rf where rf: "makeRelatedFetch g zmodel field relationDecl
         (getModelResourceMeta g (dm_name zmodel)) = Inr rf"
    and m: "map_of result (relatedDataPath g (mapModelName g model_name) field)
         = Some (empty_item\<lparr>pi_get := Some rf\<rparr>)"
    by blast
  obtain filters where "generateFilterParameters zmodel = Inr filters"
    using generatePathsForModel_filters [OF assms(1)] by blast
  from makeRelatedFetch_ok [OF this, of g field relationDecl "getModelResourceMeta g (dm_name zmodel)"] rf
  have "op_security rf = operation_security (getModelResourceMeta g (dm_name zmodel))
           (pol_read (analyzePolicies g relationDecl))"
    by auto
  then show ?thesis
    using m by (simp add: secured_by_def operation_security_effective)
qed

theorem related_fetch_security_witness:
  "map_option op_security (pi_get (the (map_of (projr (generatePathsForModel sample ''User'' sample_user))
                  ''/user/{id}/posts''))) = Some (Some [])
   \<and> map_option op_security (pi_get (the (map_of (projr (generatePathsForModel sample ''Post'' sample_post))
                  ''/post/{id}/author''))) = Some None
   \<and> map_option op_security (pi_get (the (map_of
        (projr (generatePathsForModel sample_override ''User'' sample_user))
                  ''/user/{id}/posts''))) = Some (Some [])"
proof -
  have ru: "ft_reference (f_type user_posts) = Some (DataModelRef ''Post'')" by code_simp
  have rp: "ft_reference (f_type post_author) = Some (DataModelRef ''User'')" by code_simp
  have pu: "relatedDataPath sample (mapModelName sample ''User'') user_posts
              = ''/user/{id}/posts''" by code_simp
  have pp: "relatedDataPath sample (mapModelName sample ''Post'') post_author
              = ''/post/{id}/author''" by code_simp
  have po: "relatedDataPath sample_override (mapModelName sample_override ''User'') user_posts
              = ''/user/{id}/posts''" by code_simp
  have su: "effective_security (getModelResourceMeta sample (dm_name sample_user))
              (pol_read (analyzePolicies sample ''Post'')) = Some []" by code_simp
  have sp: "effective_security (getModelResourceMeta sample (dm_name sample_post))
              (pol_read (analyzePolicies sample ''User'')) = None" by code_simp
  have so: "effective_security (getModelResourceMeta sample_override (dm_name sample_user))
              (pol_read (analyzePolicies sample_override ''Post'')) = Some []" by code_simp
  show ?thesis
    using related_fetch_security [OF sample_user_paths sample_names_ok(1) sample_members(1) ru]
      related_fetch_security [OF sample_post_paths sample_names_ok(2) sample_members(2) rp]
      related_fetch_security [OF sample_override_paths sample_names_ok(1) sample_members(1) ru]
    unfolding pu pp po by (auto simp: secured_by_def su sp so split: option.splits)
qed

text \<open>
  The claim as stated fails: with \<open>security: false\<close> in its metadata, \<open>User\<close> has a
  resource-level override, and the read policy of the related entity \<open>Post\<close> is \<open>true\<close>,
  yet \<open>GET /user/{id}/posts\<close> has no security.
\<close>

theorem related_fetch_security_counterexample:
  "has_security_override (getModelResourceMeta sample_falsy (dm_name sample_user))
   \<and> pol_read (analyzePolicies sample_falsy ''Post'') = JBool True
   \<and> open_security (getModelResourceMeta sample_falsy (dm_name sample_user))
        (pol_read (analyzePolicies sample_falsy ''Post'')) = Some []
   \<and> map_option op_security
        (pi_get (the (map_of (projr (generatePathsForModel sample_falsy ''User'' sample_user))
           ''/user/{id}/posts'')))
      = Some None"
  by code_simp

end
